theory Spec2Isabelle
  imports Main "HOL-Library.Multiset"
begin

section \<open>Values handled by the scene resolver\<close>

text \<open>
  A point in time as Python's \<open>datetime\<close> has it: either naive (wall-clock microseconds,
  no offset) or aware (microseconds of the UTC instant, and the offset in seconds).
  Comparing a naive with an aware value raises \<open>TypeError\<close>; two aware values compare
  by instant.
\<close>

datatype datetime = Naive int | Aware int int

text \<open>
  A Python \<open>float\<close>: the finite value \<open>m \<cdot> 2\<^sup>e\<close>, an infinity or not-a-number. The
  code only tests a float for zero and hands it to library functions.
\<close>

datatype pyfloat = Finite int int | PosInf | NegInf | NaN

text \<open>
  The JSON-like documents the resolver receives: what \<open>json.load\<close> produces, plus the
  already structured time value that a caller may put in a payload. A dict is an
  association list in insertion order.
\<close>

datatype json =
    JNull
  | JBool bool
  | JInt int
  | JStr string
  | JList "json list"
  | JDict "(string \<times> json) list"
  | JTime datetime
  | JFloat pyfloat

type_synonym dict = "(string \<times> json) list"

datatype error =
    ValidationError
  | ValueError
  | AttributeError
  | TypeError
  | KeyError
  | OSError
  | JSONDecodeError
  | UnicodeDecodeError
  | OverflowError

subsection \<open>Python's dict operations and truthiness\<close>

definition keys :: "dict \<Rightarrow> string list" where
  "keys d = map fst d"

definition has_key :: "dict \<Rightarrow> string \<Rightarrow> bool" where
  "has_key d k = (k \<in> set (keys d))"

text \<open>\<open>d.get(k)\<close>: the value, or \<open>None\<close>.\<close>

definition get :: "dict \<Rightarrow> string \<Rightarrow> json" where
  "get d k = (case map_of d k of None \<Rightarrow> JNull | Some v \<Rightarrow> v)"

text \<open>\<open>d.get(k, default)\<close>.\<close>

definition get_default :: "dict \<Rightarrow> string \<Rightarrow> json \<Rightarrow> json" where
  "get_default d k dflt = (case map_of d k of None \<Rightarrow> dflt | Some v \<Rightarrow> v)"

text \<open>\<open>d[k] = v\<close>: in place when the key exists, at the end otherwise.\<close>

fun dict_set :: "(string \<times> 'v) list \<Rightarrow> string \<Rightarrow> 'v \<Rightarrow> (string \<times> 'v) list" where
  "dict_set [] k v = [(k, v)]"
| "dict_set ((k', v') # d) k v =
     (if k' = k then (k, v) # d else (k', v') # dict_set d k v)"

text \<open>\<open>d.setdefault(k, v)\<close>: stores only when the key is absent.\<close>

definition setdefault :: "dict \<Rightarrow> string \<Rightarrow> json \<Rightarrow> dict" where
  "setdefault d k v = (if has_key d k then d else d @ [(k, v)])"

definition remove_key :: "dict \<Rightarrow> string \<Rightarrow> dict" where
  "remove_key d k = filter (\<lambda>kv. fst kv \<noteq> k) d"

text \<open>\<open>d.pop(k)\<close>: the value and the dict without the key; \<open>KeyError\<close> when absent.\<close>

definition pop :: "dict \<Rightarrow> string \<Rightarrow> error + (json \<times> dict)" where
  "pop d k = (case map_of d k of None \<Rightarrow> Inl KeyError | Some v \<Rightarrow> Inr (v, remove_key d k))"

text \<open>\<open>d.update(e)\<close>.\<close>

definition update :: "dict \<Rightarrow> dict \<Rightarrow> dict" where
  "update d e = fold (\<lambda>kv acc. dict_set acc (fst kv) (snd kv)) e d"

fun truthy :: "json \<Rightarrow> bool" where
  "truthy JNull = False"
| "truthy (JBool b) = b"
| "truthy (JInt n) = (n \<noteq> 0)"
| "truthy (JStr s) = (s \<noteq> [])"
| "truthy (JList xs) = (xs \<noteq> [])"
| "truthy (JDict d) = (d \<noteq> [])"
| "truthy (JTime t) = True"
| "truthy (JFloat f) = (case f of Finite m e \<Rightarrow> m \<noteq> 0 | _ \<Rightarrow> True)"

text \<open>\<open>a or b\<close>.\<close>

definition py_or :: "json \<Rightarrow> json \<Rightarrow> json" where
  "py_or a b = (if truthy a then a else b)"

section \<open>Payload normalisation (schemas.py)\<close>

text \<open>
  The loop shared by the three root validators:
  \<^verbatim>\<open>for key in list(data.keys()):
      if key in known: continue
      metadata.setdefault(key, data.pop(key))\<close>
  \<open>metadata\<close> is whatever \<open>data.get("metadata") or {}\<close> gave; when it is not a dict,
  \<open>metadata.setdefault\<close> raises \<open>AttributeError\<close> at the first unrecognised key.
\<close>

fun relocate :: "string list \<Rightarrow> string list \<Rightarrow> dict \<Rightarrow> json \<Rightarrow> error + (dict \<times> json)" where
  "relocate known [] data metadata = Inr (data, metadata)"
| "relocate known (key # ks) data metadata =
     (if key \<in> set known then relocate known ks data metadata
      else (case metadata of
              JDict m \<Rightarrow>
                (case pop data key of
                   Inl e \<Rightarrow> Inl e
                 | Inr (v, data') \<Rightarrow> relocate known ks data' (JDict (setdefault m key v)))
            | _ \<Rightarrow> Inl AttributeError))"

definition entity_known :: "string list" where
  "entity_known = [''id'', ''name'', ''type'', ''appearance'', ''attributes'', ''metadata'']"

text \<open>\<open>GeminiEntity._normalise_fields\<close>.\<close>

definition normalise_fields :: "dict \<Rightarrow> error + dict" where
  "normalise_fields values =
     (let data = values;
          data = setdefault data ''appearance'' (get_default data ''looks'' (JDict []));
          data = setdefault data ''attributes'' (get_default data ''state'' (JDict []));
          metadata = py_or (get data ''metadata'') (JDict [])
      in case relocate entity_known (keys data) data metadata of
           Inl e \<Rightarrow> Inl e
         | Inr (data', metadata') \<Rightarrow> Inr (dict_set data' ''metadata'' metadata'))"

definition payload_known :: "string list" where
  "payload_known = [''events'', ''timeline'', ''entries'', ''metadata'']"

text \<open>\<open>GeminiPayload._normalise_payload\<close>.\<close>

definition normalise_payload :: "dict \<Rightarrow> error + dict" where
  "normalise_payload values =
     (let data = values;
          data = setdefault data ''events''
                   (py_or (py_or (get data ''timeline'') (get data ''entries'')) (JList []));
          metadata = py_or (get data ''metadata'') (JDict [])
      in case relocate payload_known (keys data) data metadata of
           Inl e \<Rightarrow> Inl e
         | Inr (data', metadata') \<Rightarrow> Inr (dict_set data' ''metadata'' metadata'))"

text \<open>
  \<open>entry.get("role") in {...}\<close>: membership in a set of strings hashes the role, so a
  list or a dict there raises \<open>TypeError\<close>.
\<close>

definition role_in :: "string list \<Rightarrow> dict \<Rightarrow> error + bool" where
  "role_in roles entry =
     (case get entry ''role'' of
        JList xs \<Rightarrow> Inl TypeError
      | JDict d \<Rightarrow> Inl TypeError
      | JStr s \<Rightarrow> Inr (s \<in> set roles)
      | _ \<Rightarrow> Inr False)"

text \<open>
  \<open>[entry for entry in entities if isinstance(entry, dict) and entry.get("role") in roles]\<close>
\<close>

fun filter_role :: "string list \<Rightarrow> json list \<Rightarrow> error + json list" where
  "filter_role roles [] = Inr []"
| "filter_role roles (JDict entry # rest) =
     (case role_in roles entry of
        Inl e \<Rightarrow> Inl e
      | Inr keep \<Rightarrow>
          (case filter_role roles rest of
             Inl e \<Rightarrow> Inl e
           | Inr xs \<Rightarrow> Inr (if keep then JDict entry # xs else xs)))"
| "filter_role roles (other # rest) = filter_role roles rest"

definition event_known :: "string list" where
  "event_known = [''event_id'', ''id'', ''timestamp'', ''time'', ''event_time'', ''action'',
     ''verb'', ''summary'', ''description'', ''actors'', ''targets'', ''participants'',
     ''subjects'', ''entities'', ''metadata'']"

text \<open>The \<open>actors\<close> block of \<open>GeminiEvent._normalise_event\<close>.\<close>

definition fill_actors :: "dict \<Rightarrow> dict" where
  "fill_actors data =
     (if \<not> truthy (get data ''actors'') then
        (case py_or (get data ''participants'') (get data ''subjects'') of
           JList ps \<Rightarrow> dict_set data ''actors'' (JList ps)
         | _ \<Rightarrow> data)
      else data)"

text \<open>The \<open>targets\<close> block of \<open>GeminiEvent._normalise_event\<close>.\<close>

definition fill_targets :: "dict \<Rightarrow> error + dict" where
  "fill_targets data =
     (if \<not> truthy (get data ''targets'') then
        (case py_or (get data ''entities'') (JList []) of
           JList entities \<Rightarrow>
             (case filter_role [''object'', ''target''] entities of
                Inl e \<Rightarrow> Inl e
              | Inr target_like \<Rightarrow>
                  (case filter_role [''actor'', ''subject'', ''person''] entities of
                     Inl e \<Rightarrow> Inl e
                   | Inr actor_like \<Rightarrow>
                       (let data = (if actor_like \<noteq> [] \<and> \<not> truthy (get data ''actors'')
                                    then dict_set data ''actors'' (JList actor_like) else data);
                            data = (if target_like \<noteq> [] \<and> \<not> truthy (get data ''targets'')
                                    then dict_set data ''targets'' (JList target_like) else data)
                        in Inr data)))
         | _ \<Rightarrow> Inr data)
      else Inr data)"

text \<open>\<open>GeminiEvent._normalise_event\<close>.\<close>

definition normalise_event :: "dict \<Rightarrow> error + dict" where
  "normalise_event values =
     (let data = values;
          data = dict_set data ''event_id'' (py_or (get data ''event_id'') (get data ''id''));
          data = dict_set data ''timestamp''
                   (py_or (py_or (get data ''timestamp'') (get data ''time'')) (get data ''event_time''));
          data = setdefault data ''action'' (get data ''verb'');
          data = setdefault data ''summary'' (get data ''description'');
          data = fill_actors data
      in case fill_targets data of
           Inl e \<Rightarrow> Inl e
         | Inr data \<Rightarrow>
             (let metadata = py_or (get data ''metadata'') (JDict [])
              in case relocate event_known (keys data) data metadata of
                   Inl e \<Rightarrow> Inl e
                 | Inr (data', metadata') \<Rightarrow> Inr (dict_set data' ''metadata'' metadata')))"

text \<open>The metadata bag an object arrives with: \<open>data.get("metadata") or {}\<close>.\<close>

definition incoming_bag :: "dict \<Rightarrow> dict" where
  "incoming_bag values =
     (case py_or (get values ''metadata'') (JDict []) of JDict m \<Rightarrow> m | _ \<Rightarrow> [])"

section \<open>Strings and random identifiers\<close>

subsection \<open>Strings\<close>

definition lower_char :: "char \<Rightarrow> char" where
  "lower_char c =
     (case map_of (zip ''ABCDEFGHIJKLMNOPQRSTUVWXYZ'' ''abcdefghijklmnopqrstuvwxyz'') c of
        None \<Rightarrow> c | Some l \<Rightarrow> l)"

text \<open>\<open>s.lower()\<close>, on ASCII letters; other bytes are left as they are.\<close>

definition lower :: "string \<Rightarrow> string" where
  "lower s = map lower_char s"

text \<open>\<open>s.startswith(p)\<close>.\<close>

definition startswith :: "string \<Rightarrow> string \<Rightarrow> bool" where
  "startswith s p = (take (length p) s = p)"

text \<open>\<open>p in s\<close> for two strings: \<open>p\<close> occurs in \<open>s\<close>.\<close>

fun occurs_in :: "string \<Rightarrow> string \<Rightarrow> bool" where
  "occurs_in p [] = (p = [])"
| "occurs_in p (c # s) = (startswith (c # s) p \<or> occurs_in p s)"

text \<open>\<open>s.replace("Z", "+00:00")\<close>.\<close>

definition replace_Z :: "string \<Rightarrow> string" where
  "replace_Z s = concat (map (\<lambda>c. if c = CHR ''Z'' then ''+00:00'' else [c]) s)"

text \<open>ASCII whitespace, as \<open>str.split()\<close> and \<open>str.strip()\<close> see it.\<close>

definition is_space :: "char \<Rightarrow> bool" where
  "is_space c = (of_char c \<in> {9, 10, 11, 12, 13, 28, 29, 30, 31, 32 :: nat})"

text \<open>\<open>s.split()\<close>: the maximal runs of non-whitespace; \<open>cur\<close> is the run being read, reversed.\<close>

fun split_ws :: "string \<Rightarrow> string \<Rightarrow> string list" where
  "split_ws cur [] = (if cur = [] then [] else [rev cur])"
| "split_ws cur (c # s) =
     (if is_space c then (if cur = [] then split_ws [] s else rev cur # split_ws [] s)
      else split_ws (c # cur) s)"

text \<open>\<open>sep.join(parts)\<close>.\<close>

fun join :: "string \<Rightarrow> string list \<Rightarrow> string" where
  "join sep [] = []"
| "join sep [p] = p"
| "join sep (p # q # ps) = p @ sep @ join sep (q # ps)"

text \<open>\<open>s.strip()\<close>.\<close>

definition strip :: "string \<Rightarrow> string" where
  "strip s = rev (dropWhile is_space (rev (dropWhile is_space s)))"

subsection \<open>Random identifiers\<close>

definition hex_digit :: "nat \<Rightarrow> char" where
  "hex_digit d = ''0123456789abcdef'' ! (d mod 16)"

text \<open>The \<open>k\<close> lowest hexadecimal digits of \<open>u\<close>, highest first.\<close>

fun hex_digits :: "nat \<Rightarrow> nat \<Rightarrow> string" where
  "hex_digits 0 u = []"
| "hex_digits (Suc k) u = hex_digits k (u div 16) @ [hex_digit u]"

text \<open>\<open>uuid4().hex[:n]\<close> for the 128-bit value \<open>u\<close>: the first \<open>n\<close> of its 32 digits.\<close>

definition uuid_hex :: "nat \<Rightarrow> nat \<Rightarrow> string" where
  "uuid_hex n u = take n (hex_digits 32 u)"

section \<open>The validated models (schemas.py)\<close>

record gemini_entity =
  ge_entity_id :: "string option"
  ge_name :: "string option"
  ge_type :: "string option"
  ge_appearance :: dict
  ge_attributes :: dict
  ge_metadata :: dict

record gemini_event =
  gv_event_id :: "string option"
  gv_timestamp :: datetime
  gv_action :: "string option"
  gv_summary :: "string option"
  gv_actors :: "gemini_entity list"
  gv_targets :: "gemini_entity list"
  gv_metadata :: dict

record gemini_payload =
  gp_events :: "gemini_event list"
  gp_metadata :: dict

record event_actor =
  ea_entity_id :: string
  ea_name :: "string option"
  ea_type :: string
  ea_appearance :: dict
  ea_attributes :: dict

record event =
  ev_id :: string
  ev_timestamp :: datetime
  ev_action :: string
  ev_summary :: "string option"
  ev_actor :: "event_actor option"
  ev_target :: "event_actor option"
  ev_metadata :: dict

record entity_state =
  es_entity_id :: string
  es_name :: "string option"
  es_type :: string
  es_appearance :: dict
  es_attributes :: dict
  es_last_event_id :: "string option"
  es_last_updated :: datetime

record scene_state =
  timeline :: "event list"
  world_state :: "(string \<times> entity_state) list"

text \<open>
  What is at \<open>STATE_PATH\<close>: nothing; a file that cannot be opened or read; bytes that
  are not UTF-8; text that is not JSON; or a JSON document.
\<close>

datatype state_file = Missing | Unreadable | Undecodable | Malformed | Document json

subsection \<open>Library functions the code calls\<close>

text \<open>
  What the code takes from Python, its libraries and the file system, as parameters
  of the model: \<open>str(v)\<close>; \<open>a == b\<close> on JSON values; \<open>s.lower()\<close> on any text;
  \<open>datetime.fromtimestamp\<close> on an \<open>int\<close> or a \<open>float\<close> (it raises for an instant out of
  range); \<open>datetime.fromisoformat\<close> (\<open>None\<close> stands for its \<open>ValueError\<close>);
  \<open>datetime.isoformat\<close>; the values \<open>uuid4()\<close> returns (by call number);
  \<open>SceneState.parse_obj\<close> on a state document (\<open>None\<close> stands for its
  \<open>ValidationError\<close>); the document that \<open>state.json(...)\<close> writes; and whether writing
  a document over the state file fails (\<open>None\<close> when it succeeds, else the exception
  and the file it leaves behind).
\<close>

record pylib =
  str_of :: "json \<Rightarrow> string"
  equal_to :: "json \<Rightarrow> json \<Rightarrow> bool"
  lower_of :: "string \<Rightarrow> string"
  fromtimestamp :: "int + pyfloat \<Rightarrow> error + datetime"
  fromisoformat :: "string \<Rightarrow> datetime option"
  isoformat :: "datetime \<Rightarrow> string"
  uuid4 :: "nat \<Rightarrow> nat"
  parse_state :: "json \<Rightarrow> scene_state option"
  dump_state :: "scene_state \<Rightarrow> json"
  write_fails :: "state_file \<Rightarrow> json \<Rightarrow> (error \<times> state_file) option"

subsection \<open>Field validation\<close>

text \<open>
  The validation library turns a \<open>ValueError\<close> or \<open>TypeError\<close> raised by a validator into
  a validation error, which it collects while it goes on with the other fields; any
  other exception leaves the parse at once.
\<close>

definition absorb :: "error \<Rightarrow> error" where
  "absorb e = (if e = ValueError \<or> e = TypeError then ValidationError else e)"

definition hard :: "error \<Rightarrow> bool" where
  "hard e = (e \<noteq> ValidationError)"

text \<open>
  Two fields validated one after the other: the first exception that is not a
  validation error wins, then a validation error of either, then both values.
\<close>

fun both :: "error + 'a \<Rightarrow> error + 'b \<Rightarrow> error + ('a \<times> 'b)" where
  "both (Inl e1) r2 =
     (if hard e1 then Inl e1
      else (case r2 of Inl e2 \<Rightarrow> (if hard e2 then Inl e2 else Inl e1) | Inr b \<Rightarrow> Inl e1))"
| "both (Inr a) (Inl e2) = Inl e2"
| "both (Inr a) (Inr b) = Inr (a, b)"

text \<open>The items of a list field, validated in order.\<close>

fun collect :: "(error + 'a) list \<Rightarrow> error + 'a list" where
  "collect [] = Inr []"
| "collect (r # rs) = map_sum id (\<lambda>p. fst p # snd p) (both r (collect rs))"

text \<open>
  An \<open>Optional[str]\<close> field: \<open>None\<close> and strings pass, numbers (and booleans, which are
  numbers) are rendered with \<open>str\<close>, everything else is refused.
\<close>

definition optional_str :: "pylib \<Rightarrow> json \<Rightarrow> error + string option" where
  "optional_str lib v =
     (case v of
        JNull \<Rightarrow> Inr None
      | JStr s \<Rightarrow> Inr (Some s)
      | JInt n \<Rightarrow> Inr (Some (str_of lib (JInt n)))
      | JBool b \<Rightarrow> Inr (Some (str_of lib (JBool b)))
      | JFloat f \<Rightarrow> Inr (Some (str_of lib (JFloat f)))
      | _ \<Rightarrow> Inl ValidationError)"

text \<open>A \<open>str\<close> field: as above, and \<open>None\<close> is refused.\<close>

definition required_str :: "pylib \<Rightarrow> json \<Rightarrow> error + string" where
  "required_str lib v =
     (case optional_str lib v of
        Inl e \<Rightarrow> Inl e
      | Inr None \<Rightarrow> Inl ValidationError
      | Inr (Some s) \<Rightarrow> Inr s)"

subsection \<open>Python's \<open>dict(v)\<close> and \<open>d.update(v)\<close> on a value that is not a dict\<close>

text \<open>
  A Python dict whose keys need not be strings, in insertion order. Two keys are the
  same key when both are strings and equal, or neither is a string and \<open>==\<close> holds.
\<close>

type_synonym pairs = "(json \<times> json) list"

definition same_key :: "pylib \<Rightarrow> json \<Rightarrow> json \<Rightarrow> bool" where
  "same_key lib a b =
     (case (a, b) of
        (JStr s, JStr t) \<Rightarrow> s = t
      | (JStr s, _) \<Rightarrow> False
      | (_, JStr t) \<Rightarrow> False
      | _ \<Rightarrow> equal_to lib a b)"

text \<open>\<open>d[k] = v\<close>: the first key object stays, with the new value.\<close>

fun put :: "pylib \<Rightarrow> pairs \<Rightarrow> json \<Rightarrow> json \<Rightarrow> pairs" where
  "put lib [] k v = [(k, v)]"
| "put lib ((k', v') # d) k v =
     (if same_key lib k' k then (k', v) # d else (k', v') # put lib d k v)"

text \<open>
  One element of the sequence read as a key and a value: a list or a string of length
  two, or a dict with two keys (iterating a dict gives its keys). Anything else that can
  be iterated raises \<open>ValueError\<close>, and what cannot raises \<open>TypeError\<close>.
\<close>

definition pair_of :: "json \<Rightarrow> error + json \<times> json" where
  "pair_of x =
     (case x of
        JList xs \<Rightarrow> (case xs of [k, v] \<Rightarrow> Inr (k, v) | _ \<Rightarrow> Inl ValueError)
      | JStr s \<Rightarrow> (case s of [a, b] \<Rightarrow> Inr (JStr [a], JStr [b]) | _ \<Rightarrow> Inl ValueError)
      | JDict d \<Rightarrow> (case d of [(k1, v1), (k2, v2)] \<Rightarrow> Inr (JStr k1, JStr k2)
                    | _ \<Rightarrow> Inl ValueError)
      | _ \<Rightarrow> Inl TypeError)"

text \<open>A list and a dict cannot be hashed, so they cannot be keys.\<close>

definition hashable :: "json \<Rightarrow> bool" where
  "hashable k = (case k of JList xs \<Rightarrow> False | JDict d \<Rightarrow> False | _ \<Rightarrow> True)"

text \<open>The elements of a sequence stored one after the other into \<open>d\<close>.\<close>

fun put_pairs :: "pylib \<Rightarrow> pairs \<Rightarrow> json list \<Rightarrow> error + pairs" where
  "put_pairs lib d [] = Inr d"
| "put_pairs lib d (x # xs) =
     (case pair_of x of
        Inl e \<Rightarrow> Inl e
      | Inr (k, v) \<Rightarrow> (if hashable k then put_pairs lib (put lib d k v) xs else Inl TypeError))"

text \<open>
  \<open>d.update(x)\<close> for any \<open>x\<close>: a dict gives its items; a list is read as a
  sequence of pairs; a string is a sequence of strings of length one, so only the empty
  string passes; nothing else can be iterated.
\<close>

definition dict_update :: "pylib \<Rightarrow> pairs \<Rightarrow> json \<Rightarrow> error + pairs" where
  "dict_update lib d x =
     (case x of
        JDict e \<Rightarrow> Inr (fold (\<lambda>kv acc. put lib acc (JStr (fst kv)) (snd kv)) e d)
      | JList xs \<Rightarrow> put_pairs lib d xs
      | JStr s \<Rightarrow> (if s = [] then Inr d else Inl ValueError)
      | _ \<Rightarrow> Inl TypeError)"

text \<open>\<open>dict(v)\<close>.\<close>

definition py_dict :: "pylib \<Rightarrow> json \<Rightarrow> error + pairs" where
  "py_dict lib v = dict_update lib [] v"

text \<open>
  The keys of a \<open>Dict[str, Any]\<close> field validated as \<open>str\<close> and the items stored under
  the validated keys, in order.
\<close>

fun coerce_keys :: "pylib \<Rightarrow> dict \<Rightarrow> pairs \<Rightarrow> error + dict" where
  "coerce_keys lib acc [] = Inr acc"
| "coerce_keys lib acc ((k, v) # rest) =
     (case required_str lib k of
        Inl e \<Rightarrow> Inl ValidationError
      | Inr s \<Rightarrow> coerce_keys lib (dict_set acc s v) rest)"

text \<open>
  A \<open>Dict[str, Any]\<close> field: a dict passes as it is, anything else goes through
  \<open>dict(v)\<close> and the validation of the keys.
\<close>

definition dict_field :: "pylib \<Rightarrow> json \<Rightarrow> error + dict" where
  "dict_field lib v =
     (case v of
        JDict d \<Rightarrow> Inr d
      | _ \<Rightarrow> (case py_dict lib v of
                Inl e \<Rightarrow> Inl ValidationError
              | Inr ps \<Rightarrow> coerce_keys lib [] ps))"

text \<open>The keyword arguments \<open>cls(**d)\<close> takes: every key has to be a string.\<close>

fun keyword_args :: "pairs \<Rightarrow> dict option" where
  "keyword_args [] = Some []"
| "keyword_args ((k, v) # rest) =
     (case k of
        JStr s \<Rightarrow> map_option (\<lambda>d. (s, v) # d) (keyword_args rest)
      | _ \<Rightarrow> None)"

text \<open>
  A field whose type is a model: a dict is passed on, anything else goes through
  \<open>dict(v)\<close>; the \<open>TypeError\<close> of a key that is not a string is a validation error
  like any other raised by a validator.
\<close>

definition model_field :: "pylib \<Rightarrow> json \<Rightarrow> error + dict" where
  "model_field lib v =
     (case v of
        JDict d \<Rightarrow> Inr d
      | _ \<Rightarrow> (case py_dict lib v of
                Inl e \<Rightarrow> Inl ValidationError
              | Inr ps \<Rightarrow> (case keyword_args ps of None \<Rightarrow> Inl ValidationError | Some d \<Rightarrow> Inr d)))"

text \<open>
  \<open>parse_obj(obj)\<close>: as above, but the call \<open>cls(**obj)\<close> is not inside a validator,
  so the \<open>TypeError\<close> of a key that is not a string is raised as it is.
\<close>

definition parse_obj_arg :: "pylib \<Rightarrow> json \<Rightarrow> error + dict" where
  "parse_obj_arg lib v =
     (case v of
        JDict d \<Rightarrow> Inr d
      | _ \<Rightarrow> (case py_dict lib v of
                Inl e \<Rightarrow> Inl ValidationError
              | Inr ps \<Rightarrow> (case keyword_args ps of None \<Rightarrow> Inl TypeError | Some d \<Rightarrow> Inr d)))"

text \<open>
  The value a field is read from: under its alias \<open>id\<close> when the data has that key,
  else under the field's own name, else the default \<open>None\<close>.
\<close>

definition aliased :: "dict \<Rightarrow> string \<Rightarrow> string \<Rightarrow> json" where
  "aliased data alias name = (if has_key data alias then get data alias else get data name)"

subsection \<open>Parsing a payload\<close>

text \<open>\<open>GeminiEntity\<close>: the root validator, then the fields in declaration order.\<close>

definition parse_entity :: "pylib \<Rightarrow> json \<Rightarrow> error + gemini_entity" where
  "parse_entity lib v =
     (case model_field lib v of
        Inl e \<Rightarrow> Inl e
      | Inr values \<Rightarrow>
          (case normalise_fields values of
             Inl e \<Rightarrow> Inl (absorb e)
           | Inr data \<Rightarrow>
               (case both (optional_str lib (aliased data ''id'' ''entity_id''))
                      (both (optional_str lib (get data ''name''))
                      (both (optional_str lib (get data ''type''))
                      (both (dict_field lib (get data ''appearance''))
                      (both (dict_field lib (get data ''attributes''))
                            (dict_field lib (get data ''metadata'')))))) of
                  Inl e \<Rightarrow> Inl e
                | Inr (i, n, t, ap, at, md) \<Rightarrow>
                    Inr \<lparr>ge_entity_id = i, ge_name = n, ge_type = t, ge_appearance = ap,
                         ge_attributes = at, ge_metadata = md\<rparr>)))"

text \<open>A \<open>List[GeminiEntity]\<close> field.\<close>

definition entities_field :: "pylib \<Rightarrow> json \<Rightarrow> error + gemini_entity list" where
  "entities_field lib v =
     (case v of JList xs \<Rightarrow> collect (map (parse_entity lib) xs) | _ \<Rightarrow> Inl ValidationError)"

text \<open>\<open>GeminiEvent._coerce_timestamp\<close>. A boolean is an \<open>int\<close> to \<open>isinstance\<close>.\<close>

definition coerce_timestamp :: "pylib \<Rightarrow> json \<Rightarrow> error + datetime" where
  "coerce_timestamp lib v =
     (case v of
        JTime t \<Rightarrow> Inr t
      | JInt n \<Rightarrow> fromtimestamp lib (Inl n)
      | JBool b \<Rightarrow> fromtimestamp lib (Inl (if b then 1 else 0))
      | JFloat f \<Rightarrow> fromtimestamp lib (Inr f)
      | JStr s \<Rightarrow>
          (case fromisoformat lib (replace_Z s) of None \<Rightarrow> Inl ValueError | Some t \<Rightarrow> Inr t)
      | _ \<Rightarrow> Inl ValueError)"

text \<open>\<open>GeminiEvent\<close>: the root validator, then the fields in declaration order.\<close>

definition parse_event :: "pylib \<Rightarrow> json \<Rightarrow> error + gemini_event" where
  "parse_event lib v =
     (case model_field lib v of
        Inl e \<Rightarrow> Inl e
      | Inr values \<Rightarrow>
          (case normalise_event values of
             Inl e \<Rightarrow> Inl (absorb e)
           | Inr data \<Rightarrow>
               (case both (optional_str lib (aliased data ''id'' ''event_id''))
                      (both (map_sum absorb id (coerce_timestamp lib (get data ''timestamp'')))
                      (both (optional_str lib (get data ''action''))
                      (both (optional_str lib (get data ''summary''))
                      (both (if has_key data ''actors''
                             then entities_field lib (get data ''actors'') else Inr [])
                      (both (if has_key data ''targets''
                             then entities_field lib (get data ''targets'') else Inr [])
                            (dict_field lib (get data ''metadata''))))))) of
                  Inl e \<Rightarrow> Inl e
                | Inr (i, ts, ac, su, actors, targets, md) \<Rightarrow>
                    Inr \<lparr>gv_event_id = i, gv_timestamp = ts, gv_action = ac, gv_summary = su,
                         gv_actors = actors, gv_targets = targets, gv_metadata = md\<rparr>)))"

text \<open>A \<open>List[GeminiEvent]\<close> field.\<close>

definition events_field :: "pylib \<Rightarrow> json \<Rightarrow> error + gemini_event list" where
  "events_field lib v =
     (case v of JList xs \<Rightarrow> collect (map (parse_event lib) xs) | _ \<Rightarrow> Inl ValidationError)"

text \<open>\<open>GeminiPayload.parse_obj\<close>.\<close>

definition parse_payload :: "pylib \<Rightarrow> json \<Rightarrow> error + gemini_payload" where
  "parse_payload lib v =
     (case parse_obj_arg lib v of
        Inl e \<Rightarrow> Inl e
      | Inr values \<Rightarrow>
          (case normalise_payload values of
             Inl e \<Rightarrow> Inl (absorb e)
           | Inr data \<Rightarrow>
               (case both (events_field lib (get data ''events''))
                          (dict_field lib (get data ''metadata'')) of
                  Inl e \<Rightarrow> Inl e
                | Inr (evs, md) \<Rightarrow> Inr \<lparr>gp_events = evs, gp_metadata = md\<rparr>)))"

section \<open>Identity resolution (resolver.py)\<close>

text \<open>
  \<open>IDENTITY_PROFILES\<close>: three buckets, each from profile id to profile, in the order
  the loader filled them. Profile ids are taken to be strings.
\<close>

type_synonym bucket = "(string \<times> dict) list"

record identity_profiles =
  person :: bucket
  object :: bucket
  unknown :: bucket

text \<open>\<open>entity.type or "unknown"\<close>, lower-cased.\<close>

definition entity_type_of :: "gemini_entity \<Rightarrow> string" where
  "entity_type_of entity =
     lower (case ge_type entity of None \<Rightarrow> ''unknown''
            | Some t \<Rightarrow> if t = [] then ''unknown'' else t)"

definition buckets :: "identity_profiles \<Rightarrow> (string \<times> bucket) list" where
  "buckets store =
     [(''person'', person store), (''object'', object store), (''unknown'', unknown store)]"

text \<open>
  The \<open>for ... else\<close> that picks the bucket: the preferred bucket and the canonical type.
\<close>

definition select_bucket :: "identity_profiles \<Rightarrow> string \<Rightarrow> bucket \<times> string" where
  "select_bucket store entity_type =
     (case find (\<lambda>nb. startswith entity_type (take 3 (fst nb))) (buckets store) of
        Some (bucket_name, bucket) \<Rightarrow> (bucket, bucket_name)
      | None \<Rightarrow> (unknown store, if entity_type \<noteq> [] then entity_type else ''unknown''))"

text \<open>\<open>result = dict(profile); result.setdefault("type", canonical_type)\<close>.\<close>

definition with_type :: "dict \<Rightarrow> string \<Rightarrow> dict" where
  "with_type profile canonical_type = setdefault profile ''type'' (JStr canonical_type)"

text \<open>The buckets scanned by the name and the similarity steps, in order.\<close>

definition scan_order :: "identity_profiles \<Rightarrow> bucket \<Rightarrow> (string \<times> dict) list" where
  "scan_order store preferred_bucket = preferred_bucket @ person store @ object store"

text \<open>
  The name scan. \<open>profile.get("name", "").lower()\<close> raises \<open>AttributeError\<close> when the
  stored name is not a string.
\<close>

fun name_scan :: "pylib \<Rightarrow> string \<Rightarrow> (string \<times> dict) list \<Rightarrow>
    error + (string \<times> dict) option" where
  "name_scan lib lookup [] = Inr None"
| "name_scan lib lookup ((profile_id, profile) # rest) =
     (case get_default profile ''name'' (JStr []) of
        JStr s \<Rightarrow> (if lower_of lib s = lookup then Inr (Some (profile_id, profile))
                   else name_scan lib lookup rest)
      | _ \<Rightarrow> Inl AttributeError)"

text \<open>The contribution of one appearance key whose stored value is not \<open>None\<close>.\<close>

definition appearance_points :: "pylib \<Rightarrow> json \<Rightarrow> json \<Rightarrow> nat" where
  "appearance_points lib v profile_value =
     (case (v, profile_value) of
        (JList xs, JList ys) \<Rightarrow> card (set (map (str_of lib) xs) \<inter> set (map (str_of lib) ys))
      | (JList xs, _) \<Rightarrow> (if str_of lib profile_value \<in> set (map (str_of lib) xs) then 1 else 0)
      | (_, JList ys) \<Rightarrow> (if str_of lib v \<in> set (map (str_of lib) ys) then 1 else 0)
      | _ \<Rightarrow> (if lower_of lib (str_of lib v) = lower_of lib (str_of lib profile_value)
              then 1 else 0))"

text \<open>
  The appearance loop of \<open>score_profile\<close>. \<open>profile_appearance\<close> is
  \<open>profile.get("appearance") or {}\<close>; when it is not a dict, \<open>.get\<close> raises.
\<close>

fun appearance_score :: "pylib \<Rightarrow> json \<Rightarrow> dict \<Rightarrow> error + nat" where
  "appearance_score lib profile_appearance [] = Inr 0"
| "appearance_score lib profile_appearance ((key, v) # rest) =
     (case profile_appearance of
        JDict pa \<Rightarrow>
          (case appearance_score lib profile_appearance rest of
             Inl e \<Rightarrow> Inl e
           | Inr n \<Rightarrow>
               (if get pa key = JNull then Inr n
                else Inr (appearance_points lib v (get pa key) + n)))
      | _ \<Rightarrow> Inl AttributeError)"

text \<open>
  \<open>key in profile_attributes and profile_attributes[key] == value\<close>, where
  \<open>profile_attributes\<close> is \<open>profile.get("attributes") or {}\<close>. On a string the
  test is for a substring and on a list for an element, and the subscript then raises;
  on anything else that is not a dict the test itself raises.
\<close>

definition attribute_point :: "pylib \<Rightarrow> json \<Rightarrow> string \<Rightarrow> json \<Rightarrow> error + nat" where
  "attribute_point lib profile_attributes key v =
     (case profile_attributes of
        JDict pa \<Rightarrow>
          (case map_of pa key of
             None \<Rightarrow> Inr 0
           | Some pv \<Rightarrow> Inr (if equal_to lib pv v then 1 else 0))
      | JStr s \<Rightarrow> (if occurs_in key s then Inl TypeError else Inr 0)
      | JList xs \<Rightarrow> (if \<exists>x \<in> set xs. equal_to lib x (JStr key) then Inl TypeError else Inr 0)
      | _ \<Rightarrow> Inl TypeError)"

fun attributes_score :: "pylib \<Rightarrow> json \<Rightarrow> dict \<Rightarrow> error + nat" where
  "attributes_score lib profile_attributes [] = Inr 0"
| "attributes_score lib profile_attributes ((key, v) # rest) =
     (case attribute_point lib profile_attributes key v of
        Inl e \<Rightarrow> Inl e
      | Inr p \<Rightarrow>
          (case attributes_score lib profile_attributes rest of
             Inl e \<Rightarrow> Inl e
           | Inr n \<Rightarrow> Inr (p + n)))"

text \<open>\<open>score_profile\<close>, for the observed appearance and attributes.\<close>

definition score_profile :: "pylib \<Rightarrow> dict \<Rightarrow> dict \<Rightarrow> dict \<Rightarrow> error + nat" where
  "score_profile lib appearance attributes profile =
     (case appearance_score lib (py_or (get profile ''appearance'') (JDict [])) appearance of
        Inl e \<Rightarrow> Inl e
      | Inr a \<Rightarrow>
          (case attributes_score lib (py_or (get profile ''attributes'') (JDict [])) attributes of
             Inl e \<Rightarrow> Inl e
           | Inr b \<Rightarrow> Inr (a + b)))"

text \<open>
  The similarity loop: \<open>best_score\<close> and \<open>best_match\<close> are the loop's two variables,
  replaced only by a score above both the best so far and zero.
\<close>

fun scan_best :: "(dict \<Rightarrow> error + nat) \<Rightarrow> (string \<times> dict) list \<Rightarrow> nat \<Rightarrow>
    (string \<times> dict) option \<Rightarrow> error + (string \<times> dict) option" where
  "scan_best score [] best_score best_match = Inr best_match"
| "scan_best score ((profile_id, profile) # rest) best_score best_match =
     (case score profile of
        Inl e \<Rightarrow> Inl e
      | Inr s \<Rightarrow>
          (if s > best_score \<and> s > 0 then scan_best score rest s (Some (profile_id, profile))
           else scan_best score rest best_score best_match))"

text \<open>An optional string as the code tests it: \<open>None\<close> and \<open>""\<close> are false.\<close>

definition nonempty :: "string option \<Rightarrow> string option" where
  "nonempty s = (case s of None \<Rightarrow> None | Some t \<Rightarrow> if t = [] then None else Some t)"

definition json_of :: "string option \<Rightarrow> json" where
  "json_of s = (case s of None \<Rightarrow> JNull | Some t \<Rightarrow> JStr t)"

text \<open>Step 2, \<open>entity.entity_id and entity.entity_id in preferred_bucket\<close>.\<close>

definition id_match :: "bucket \<Rightarrow> gemini_entity \<Rightarrow> (string \<times> dict) option" where
  "id_match preferred_bucket entity =
     (case nonempty (ge_entity_id entity) of
        None \<Rightarrow> None
      | Some i \<Rightarrow> map_option (\<lambda>profile. (i, profile)) (map_of preferred_bucket i))"

text \<open>Step 3, the name match.\<close>

definition name_match :: "pylib \<Rightarrow> identity_profiles \<Rightarrow> bucket \<Rightarrow> gemini_entity \<Rightarrow>
    error + (string \<times> dict) option" where
  "name_match lib store preferred_bucket entity =
     (case nonempty (ge_name entity) of
        None \<Rightarrow> Inr None
      | Some name \<Rightarrow> name_scan lib (lower_of lib name) (scan_order store preferred_bucket))"

text \<open>Step 4, the similarity match.\<close>

definition similarity_match :: "pylib \<Rightarrow> identity_profiles \<Rightarrow> bucket \<Rightarrow> gemini_entity \<Rightarrow>
    error + (string \<times> dict) option" where
  "similarity_match lib store preferred_bucket entity =
     scan_best (score_profile lib (ge_appearance entity) (ge_attributes entity))
       (scan_order store preferred_bucket) 0 None"

text \<open>
  Step 5, a new identity. \<open>n\<close> counts the calls of \<open>uuid4\<close> made so far; the result
  carries the new count.
\<close>

definition synthesize :: "pylib \<Rightarrow> nat \<Rightarrow> string \<Rightarrow> gemini_entity \<Rightarrow> string \<times> dict \<times> nat" where
  "synthesize lib n canonical_type entity =
     (let (generated_id, n') =
            (case nonempty (ge_entity_id entity) of
               Some i \<Rightarrow> (i, n)
             | None \<Rightarrow>
                 (let chosen = (case nonempty (ge_name entity) of
                                  Some s \<Rightarrow> s
                                | None \<Rightarrow>
                                    (case nonempty (ge_type entity) of
                                       Some t \<Rightarrow> t
                                     | None \<Rightarrow> if canonical_type \<noteq> [] then canonical_type
                                               else ''entity''));
                      base = (if strip chosen = [] then ''entity'' else strip chosen);
                      slug = join ''_'' (split_ws [] (lower_of lib base))
                  in (slug @ ''_'' @ uuid_hex 8 (uuid4 lib n), Suc n)));
          type_value =
            (if canonical_type \<noteq> [] then canonical_type
             else (case nonempty (ge_type entity) of Some t \<Rightarrow> t | None \<Rightarrow> ''unknown''))
      in (generated_id,
          [(''id'', JStr generated_id), (''name'', json_of (ge_name entity)),
           (''type'', JStr type_value), (''appearance'', JDict (ge_appearance entity)),
           (''attributes'', JDict (ge_attributes entity))],
          n'))"

text \<open>\<open>resolve_identity\<close>: the id, the profile, and the count of \<open>uuid4\<close> calls.\<close>

definition resolve_identity :: "pylib \<Rightarrow> identity_profiles \<Rightarrow> nat \<Rightarrow> gemini_entity \<Rightarrow>
    error + (string \<times> dict \<times> nat)" where
  "resolve_identity lib store n entity =
     (let (preferred_bucket, canonical_type) = select_bucket store (entity_type_of entity)
      in case id_match preferred_bucket entity of
           Some (i, profile) \<Rightarrow> Inr (i, with_type profile canonical_type, n)
         | None \<Rightarrow>
             (case name_match lib store preferred_bucket entity of
                Inl e \<Rightarrow> Inl e
              | Inr (Some (profile_id, profile)) \<Rightarrow>
                  Inr (profile_id, with_type profile canonical_type, n)
              | Inr None \<Rightarrow>
                  (case similarity_match lib store preferred_bucket entity of
                     Inl e \<Rightarrow> Inl e
                   | Inr (Some (profile_id, profile)) \<Rightarrow>
                       Inr (profile_id, with_type profile canonical_type, n)
                   | Inr None \<Rightarrow> Inr (synthesize lib n canonical_type entity))))"

text \<open>
  \<open>_build_event_actor\<close>. The two local dicts are filled from the profile and then from
  the entity; \<open>profile.get(...) or {}\<close> may be any value, and \<open>update\<close> raises on what it
  cannot read as a dict. The last step is the validation of the \<open>EventActor\<close>, which
  also turns the keys of the two dicts into strings.
\<close>

definition build_event_actor :: "pylib \<Rightarrow> identity_profiles \<Rightarrow> nat \<Rightarrow> gemini_entity \<Rightarrow>
    error + (event_actor \<times> nat)" where
  "build_event_actor lib store n entity =
     (case resolve_identity lib store n entity of
        Inl e \<Rightarrow> Inl e
      | Inr (entity_id, profile, n') \<Rightarrow>
          (case dict_update lib [] (py_or (get profile ''appearance'') (JDict [])) of
             Inl e \<Rightarrow> Inl e
           | Inr a0 \<Rightarrow>
               (case dict_update lib a0 (py_or (JDict (ge_appearance entity)) (JDict [])) of
                  Inl e \<Rightarrow> Inl e
                | Inr appearance \<Rightarrow>
                    (case dict_update lib [] (py_or (get profile ''attributes'') (JDict [])) of
                       Inl e \<Rightarrow> Inl e
                     | Inr t0 \<Rightarrow>
                         (case dict_update lib t0 (py_or (JDict (ge_attributes entity)) (JDict [])) of
                            Inl e \<Rightarrow> Inl e
                          | Inr attributes \<Rightarrow>
                              (case both (optional_str lib
                                            (py_or (get profile ''name'') (json_of (ge_name entity))))
                                   (both (required_str lib
                                            (py_or (py_or (get profile ''type'')
                                                          (json_of (ge_type entity)))
                                                   (JStr ''unknown'')))
                                   (both (coerce_keys lib [] appearance)
                                         (coerce_keys lib [] attributes))) of
                                 Inl e \<Rightarrow> Inl e
                               | Inr (name, type, ap, at) \<Rightarrow>
                                   Inr (\<lparr>ea_entity_id = entity_id, ea_name = name, ea_type = type,
                                         ea_appearance = ap, ea_attributes = at\<rparr>, n')))))))"

section \<open>Merging into the scene state (resolver.py)\<close>

text \<open>
  One participant of \<open>_update_world_state\<close>: a new entry at the end of the mapping, or
  the existing entry changed in place.
\<close>

definition update_participant :: "event \<Rightarrow> (string \<times> entity_state) list \<Rightarrow> event_actor \<Rightarrow>
    (string \<times> entity_state) list" where
  "update_participant ev ws participant =
     (case map_of ws (ea_entity_id participant) of
        None \<Rightarrow>
          dict_set ws (ea_entity_id participant)
            \<lparr>es_entity_id = ea_entity_id participant, es_name = ea_name participant,
             es_type = ea_type participant, es_appearance = ea_appearance participant,
             es_attributes = ea_attributes participant, es_last_event_id = Some (ev_id ev),
             es_last_updated = ev_timestamp ev\<rparr>
      | Some existing \<Rightarrow>
          dict_set ws (ea_entity_id participant)
            (existing
              \<lparr>es_name := (case nonempty (ea_name participant) of
                             Some s \<Rightarrow> Some s | None \<Rightarrow> es_name existing),
               es_type := (if ea_type participant \<noteq> [] then ea_type participant
                           else es_type existing),
               es_appearance := (if ea_appearance participant \<noteq> []
                                 then update (es_appearance existing) (ea_appearance participant)
                                 else es_appearance existing),
               es_attributes := (if ea_attributes participant \<noteq> []
                                 then update (es_attributes existing) (ea_attributes participant)
                                 else es_attributes existing),
               es_last_event_id := Some (ev_id ev),
               es_last_updated := ev_timestamp ev\<rparr>))"

text \<open>\<open>filter(None, (event.actor, event.target))\<close>.\<close>

definition participants :: "event \<Rightarrow> event_actor list" where
  "participants ev =
     (case ev_actor ev of None \<Rightarrow> [] | Some a \<Rightarrow> [a]) @
     (case ev_target ev of None \<Rightarrow> [] | Some t \<Rightarrow> [t])"

text \<open>\<open>_update_world_state\<close>.\<close>

definition update_world_state :: "scene_state \<Rightarrow> event \<Rightarrow> scene_state" where
  "update_world_state state ev =
     state\<lparr>world_state := foldl (update_participant ev) (world_state state) (participants ev)\<rparr>"

subsection \<open>Sorting by timestamp\<close>

text \<open>
  \<open>a < b\<close> on two timestamps is defined when both are naive or both are aware. A sort
  compares every element with another one, so on a list that mixes the two kinds it
  raises \<open>TypeError\<close>; otherwise it is the stable sort by the instant.
\<close>

fun is_aware :: "datetime \<Rightarrow> bool" where
  "is_aware (Naive t) = False"
| "is_aware (Aware t off) = True"

fun instant :: "datetime \<Rightarrow> int" where
  "instant (Naive t) = t"
| "instant (Aware t off) = t"

definition same_kind :: "datetime list \<Rightarrow> bool" where
  "same_kind ts = (list_all is_aware ts \<or> list_all (\<lambda>t. \<not> is_aware t) ts)"

text \<open>\<open>sorted(xs, key=timestamp)\<close> and \<open>xs.sort(key=timestamp)\<close>.\<close>

definition sorted_by :: "('a \<Rightarrow> datetime) \<Rightarrow> 'a list \<Rightarrow> error + 'a list" where
  "sorted_by timestamp xs =
     (if same_kind (map timestamp xs) then Inr (sort_key (\<lambda>x. instant (timestamp x)) xs)
      else Inl TypeError)"

text \<open>\<open>a <= b\<close> on timestamps, false where Python would raise.\<close>

definition ts_le :: "datetime \<Rightarrow> datetime \<Rightarrow> bool" where
  "ts_le a b = (is_aware a = is_aware b \<and> instant a \<le> instant b)"

subsection \<open>Event ids\<close>

text \<open>
  \<^verbatim>\<open>while event_id in existing_ids:
      event_id = f"{event_id}-{uuid4().hex[:4]}"\<close>
  Every round makes the id longer, so the loop ends.
\<close>

function fresh_id :: "pylib \<Rightarrow> string list \<Rightarrow> string \<Rightarrow> nat \<Rightarrow> string \<times> nat" where
  "fresh_id lib existing_ids event_id n =
     (if event_id \<in> set existing_ids
      then fresh_id lib existing_ids (event_id @ ''-'' @ uuid_hex 4 (uuid4 lib n)) (Suc n)
      else (event_id, n))"
  by pat_completeness auto

termination
proof (relation "measure (\<lambda>(lib, existing_ids, event_id, n).
         Suc (Max (insert 0 (length ` set existing_ids))) - length event_id)")
  show "wf (measure (\<lambda>(lib, existing_ids, event_id, n).
         Suc (Max (insert 0 (length ` set existing_ids))) - length event_id))"
    by simp
next
  fix lib :: pylib and existing_ids :: "string list" and event_id :: string and n :: nat
  assume "event_id \<in> set existing_ids"
  then have "length event_id \<le> Max (insert 0 (length ` set existing_ids))"
    by (intro Max_ge) auto
  then show "((lib, existing_ids, event_id @ ''-'' @ uuid_hex 4 (uuid4 lib n), Suc n),
              (lib, existing_ids, event_id, n))
      \<in> measure (\<lambda>(lib, existing_ids, event_id, n).
           Suc (Max (insert 0 (length ` set existing_ids))) - length event_id)"
    by simp
qed

text \<open>\<open>raw_event.event_id or f"event-{raw_event.timestamp.isoformat()}-{index}"\<close>.\<close>

definition base_id :: "pylib \<Rightarrow> nat \<Rightarrow> gemini_event \<Rightarrow> string" where
  "base_id lib index raw_event =
     (case nonempty (gv_event_id raw_event) of
        Some i \<Rightarrow> i
      | None \<Rightarrow> ''event-'' @ isoformat lib (gv_timestamp raw_event) @ ''-'' @
                 str_of lib (JInt (int index)))"

subsection \<open>The ingestion loop\<close>

text \<open>
  \<open>_build_event_actor(entities[0]) if entities else None\<close>, threading the count of
  \<open>uuid4\<close> calls.
\<close>

definition first_actor :: "pylib \<Rightarrow> identity_profiles \<Rightarrow> nat \<Rightarrow> gemini_entity list \<Rightarrow>
    error + (event_actor option \<times> nat)" where
  "first_actor lib store n entities =
     (case entities of
        [] \<Rightarrow> Inr (None, n)
      | entity # rest \<Rightarrow>
          (case build_event_actor lib store n entity of
             Inl e \<Rightarrow> Inl e
           | Inr (a, n') \<Rightarrow> Inr (Some a, n')))"

text \<open>
  The body of the loop of \<open>ingest\<close> for one event: the loop's variables are the set of
  ids in use, the count of \<open>uuid4\<close> calls and the state.
\<close>

definition ingest_event :: "pylib \<Rightarrow> identity_profiles \<Rightarrow> dict \<Rightarrow> nat \<Rightarrow> gemini_event \<Rightarrow>
    string list \<times> nat \<times> scene_state \<Rightarrow> error + (string list \<times> nat \<times> scene_state)" where
  "ingest_event lib store payload_metadata index raw_event acc =
     (case acc of (existing_ids, n, state) \<Rightarrow>
        (let (event_id, n1) = fresh_id lib existing_ids (base_id lib index raw_event) n;
             existing_ids = event_id # existing_ids;
             metadata = update (update [] payload_metadata) (gv_metadata raw_event);
             action = py_or (py_or (json_of (gv_action raw_event))
                                   (get (gv_metadata raw_event) ''action''))
                            (JStr ''observation'')
         in case first_actor lib store n1 (gv_actors raw_event) of
              Inl e \<Rightarrow> Inl e
            | Inr (actor, n2) \<Rightarrow>
                (case first_actor lib store n2 (gv_targets raw_event) of
                   Inl e \<Rightarrow> Inl e
                 | Inr (target, n3) \<Rightarrow>
                     (case required_str lib action of
                        Inl e \<Rightarrow> Inl e
                      | Inr action_str \<Rightarrow>
                          (let ev = \<lparr>ev_id = event_id, ev_timestamp = gv_timestamp raw_event,
                                     ev_action = action_str, ev_summary = gv_summary raw_event,
                                     ev_actor = actor, ev_target = target, ev_metadata = metadata\<rparr>;
                               state = state\<lparr>timeline := timeline state @ [ev]\<rparr>
                           in Inr (existing_ids, n3, update_world_state state ev))))))"

text \<open>\<open>for index, raw_event in enumerate(ordered_events)\<close>, from position \<open>index\<close> on.\<close>

fun ingest_events :: "pylib \<Rightarrow> identity_profiles \<Rightarrow> dict \<Rightarrow> nat \<Rightarrow> gemini_event list \<Rightarrow>
    string list \<times> nat \<times> scene_state \<Rightarrow> error + (string list \<times> nat \<times> scene_state)" where
  "ingest_events lib store payload_metadata index [] acc = Inr acc"
| "ingest_events lib store payload_metadata index (raw_event # rest) acc =
     (case ingest_event lib store payload_metadata index raw_event acc of
        Inl e \<Rightarrow> Inl e
      | Inr acc' \<Rightarrow> ingest_events lib store payload_metadata (Suc index) rest acc')"

section \<open>The state file (state\_store.py)\<close>

text \<open>\<open>path.open("r", encoding="utf-8")\<close> and \<open>json.load(handle)\<close>.\<close>

fun read_json :: "state_file \<Rightarrow> error + json" where
  "read_json Missing = Inl OSError"
| "read_json Unreadable = Inl OSError"
| "read_json Undecodable = Inl UnicodeDecodeError"
| "read_json Malformed = Inl JSONDecodeError"
| "read_json (Document raw) = Inr raw"

definition empty_state :: scene_state where
  "empty_state = \<lparr>timeline = [], world_state = []\<rparr>"

text \<open>\<open>load_state\<close>: its handler is \<open>except (OSError, json.JSONDecodeError)\<close>.\<close>

definition load_state :: "pylib \<Rightarrow> state_file \<Rightarrow> error + scene_state" where
  "load_state lib file =
     (if file = Missing then Inr empty_state
      else (case read_json file of
              Inl e \<Rightarrow> (if e = OSError \<or> e = JSONDecodeError then Inr empty_state else Inl e)
            | Inr raw \<Rightarrow>
                (case parse_state lib raw of
                   None \<Rightarrow> Inr empty_state
                 | Some state \<Rightarrow> Inr state)))"

text \<open>
  \<open>save_state\<close>: the exception raised, if any, and the file afterwards. When the write
  succeeds the file holds the serialised state.
\<close>

definition save_state :: "pylib \<Rightarrow> state_file \<Rightarrow> scene_state \<Rightarrow> error option \<times> state_file" where
  "save_state lib file state =
     (case write_fails lib file (dump_state lib state) of
        None \<Rightarrow> (None, Document (dump_state lib state))
      | Some (e, left) \<Rightarrow> (Some e, left))"

section \<open>Ingestion (resolver.py)\<close>

text \<open>
  The part of \<open>ingest\<close> between \<open>load_state\<close> and \<open>save_state\<close>: the loaded state and
  the parsed payload give the state to save, or an exception.
\<close>

definition merge_payload :: "pylib \<Rightarrow> identity_profiles \<Rightarrow> gemini_payload \<Rightarrow> scene_state \<Rightarrow>
    error + scene_state" where
  "merge_payload lib store payload state =
     (case sorted_by gv_timestamp (gp_events payload) of
        Inl e \<Rightarrow> Inl e
      | Inr ordered_events \<Rightarrow>
          (case ingest_events lib store (gp_metadata payload) 0 ordered_events
                  (map ev_id (timeline state), 0, state) of
             Inl e \<Rightarrow> Inl e
           | Inr (existing_ids, n, state') \<Rightarrow>
               (case sorted_by ev_timestamp (timeline state') of
                  Inl e \<Rightarrow> Inl e
                | Inr sorted_timeline \<Rightarrow> Inr (state'\<lparr>timeline := sorted_timeline\<rparr>))))"

text \<open>
  \<open>ingest\<close>, with the state file passed in and out: the result or the exception, and
  the file as the call leaves it. A validation error of the payload is raised again as
  \<open>ValueError\<close>; the file is written last, so every exception raised before the write
  leaves it as it was.
\<close>

definition ingest :: "pylib \<Rightarrow> identity_profiles \<Rightarrow> json \<Rightarrow> state_file \<Rightarrow>
    (error + scene_state) \<times> state_file" where
  "ingest lib store gemini_json file =
     (case parse_payload lib gemini_json of
        Inl e \<Rightarrow> (Inl (if e = ValidationError then ValueError else e), file)
      | Inr payload \<Rightarrow>
          (case load_state lib file of
             Inl e \<Rightarrow> (Inl e, file)
           | Inr state \<Rightarrow>
               (case merge_payload lib store payload state of
                  Inl e \<Rightarrow> (Inl e, file)
                | Inr final \<Rightarrow>
                    (case save_state lib file final of
                       (None, file') \<Rightarrow> (Inr final, file')
                     | (Some e, file') \<Rightarrow> (Inl e, file')))))"

section \<open>Data for the worked examples\<close>

text \<open>
  An instance of the library parameters, used only where a statement is evaluated on
  concrete data: strings render as themselves, ASCII letters are lowered, whole epoch
  seconds become naive microseconds, no string parses as a time, every \<open>uuid4()\<close> is
  zero and every write succeeds.
\<close>

definition sample_lib :: pylib where
  "sample_lib =
     \<lparr>str_of = (\<lambda>v. case v of JStr s \<Rightarrow> s | _ \<Rightarrow> ''?''),
      equal_to = (\<lambda>a b. a = b),
      lower_of = lower,
      fromtimestamp = (\<lambda>x. case x of Inl n \<Rightarrow> Inr (Naive (n * 1000000))
                                     | Inr f \<Rightarrow> Inl OverflowError),
      fromisoformat = (\<lambda>s. None),
      isoformat = (\<lambda>t. ''t''),
      uuid4 = (\<lambda>n. 0),
      parse_state = (\<lambda>raw. None),
      dump_state = (\<lambda>state. JNull),
      write_fails = (\<lambda>file doc. None)\<rparr>"

definition sample_store :: identity_profiles where
  "sample_store =
     \<lparr>person = [(''p1'', [(''id'', JStr ''p1''), (''name'', JStr ''Bob''), (''type'', JStr ''robot''),
                           (''appearance'', JDict [(''hair'', JStr ''red'')])]),
                 (''p2'', [(''id'', JStr ''p2''), (''name'', JStr ''Cy''),
                           (''appearance'', JDict [(''hair'', JStr ''red'')])])],
      object = [],
      unknown = []\<rparr>"

text \<open>
  Two payloads that observe the entity \<open>p1\<close>: first with green hair, then without any
  appearance; and the state after the first.
\<close>

definition sighting1 :: json where
  "sighting1 = JDict [(''events'', JList [JDict [(''id'', JStr ''e1''), (''timestamp'', JInt 1),
      (''actors'', JList [JDict [(''id'', JStr ''p1''), (''type'', JStr ''person''),
          (''appearance'', JDict [(''hair'', JStr ''green'')])]])]])]"

definition sighting2 :: json where
  "sighting2 = JDict [(''events'', JList [JDict [(''id'', JStr ''e2''), (''timestamp'', JInt 2),
      (''actors'', JList [JDict [(''id'', JStr ''p1''), (''type'', JStr ''person'')]])]])]"

definition seen_once :: scene_state where
  "seen_once =
     \<lparr>timeline =
        [\<lparr>ev_id = ''e1'', ev_timestamp = Naive 1000000, ev_action = ''observation'',
          ev_summary = None,
          ev_actor = Some \<lparr>ea_entity_id = ''p1'', ea_name = Some ''Bob'', ea_type = ''robot'',
                            ea_appearance = [(''hair'', JStr ''green'')], ea_attributes = []\<rparr>,
          ev_target = None, ev_metadata = []\<rparr>],
      world_state =
        [(''p1'', \<lparr>es_entity_id = ''p1'', es_name = Some ''Bob'', es_type = ''robot'',
                   es_appearance = [(''hair'', JStr ''green'')], es_attributes = [],
                   es_last_event_id = Some ''e1'', es_last_updated = Naive 1000000\<rparr>)]\<rparr>"

text \<open>An event whose actor \<open>p1\<close> is seen with a coat and nothing else.\<close>

definition coat_event :: event where
  "coat_event =
     \<lparr>ev_id = ''e2'', ev_timestamp = Naive 2000000, ev_action = ''observation'',
      ev_summary = None,
      ev_actor = Some \<lparr>ea_entity_id = ''p1'', ea_name = None, ea_type = ''person'',
                        ea_appearance = [(''coat'', JStr ''blue'')], ea_attributes = []\<rparr>,
      ev_target = None, ev_metadata = []\<rparr>"

text \<open>A payload whose two events arrive latest first.\<close>

definition latest_first :: json where
  "latest_first = JDict [(''events'', JList
      [JDict [(''id'', JStr ''late''), (''timestamp'', JInt 2)],
       JDict [(''id'', JStr ''early''), (''timestamp'', JInt 1)]])]"

text \<open>A state whose timeline holds one naive and one aware timestamp.\<close>

definition mixed_state :: scene_state where
  "mixed_state =
     \<lparr>timeline =
        [\<lparr>ev_id = ''a'', ev_timestamp = Naive 0, ev_action = ''observation'',
          ev_summary = None, ev_actor = None, ev_target = None, ev_metadata = []\<rparr>,
         \<lparr>ev_id = ''b'', ev_timestamp = Aware 0 0, ev_action = ''observation'',
          ev_summary = None, ev_actor = None, ev_target = None, ev_metadata = []\<rparr>],
      world_state = []\<rparr>"

text \<open>The state \<open>ingest\<close> makes of \<open>latest_first\<close> on an empty store.\<close>

definition in_order :: scene_state where
  "in_order =
     \<lparr>timeline =
        [\<lparr>ev_id = ''early'', ev_timestamp = Naive 1000000, ev_action = ''observation'',
          ev_summary = None, ev_actor = None, ev_target = None, ev_metadata = []\<rparr>,
         \<lparr>ev_id = ''late'', ev_timestamp = Naive 2000000, ev_action = ''observation'',
          ev_summary = None, ev_actor = None, ev_target = None, ev_metadata = []\<rparr>],
      world_state = []\<rparr>"

text \<open>
  A store with one profile in each bucket; the one in \<open>unknown\<close> has blue hair, the two
  others red hair. An entity of type \<open>car\<close> with red hair.
\<close>

definition three_buckets :: identity_profiles where
  "three_buckets =
     \<lparr>person = [(''p1'', [(''id'', JStr ''p1''), (''appearance'', JDict [(''hair'', JStr ''red'')])])],
      object = [(''o1'', [(''id'', JStr ''o1''), (''appearance'', JDict [(''hair'', JStr ''red'')])])],
      unknown = [(''u1'', [(''id'', JStr ''u1''), (''appearance'', JDict [(''hair'', JStr ''blue'')])])]\<rparr>"

definition red_car :: gemini_entity where
  "red_car =
     \<lparr>ge_entity_id = None, ge_name = None, ge_type = Some ''car'',
      ge_appearance = [(''hair'', JStr ''red'')], ge_attributes = [], ge_metadata = []\<rparr>"

text \<open>
  A payload whose only event has a time that is no time, a metadata that is not a dict
  and a key that is not recognised.
\<close>

definition bad_time_and_bag :: json where
  "bad_time_and_bag = JDict [(''events'', JList
      [JDict [(''time'', JStr ''yesterday''), (''metadata'', JStr ''x''), (''zone'', JInt 1)]])]"

section \<open>Predicates of the specification\<close>

text \<open>
  The value an event's timestamp is taken from, as the first line on it in
  \<open>_normalise_event\<close> reads it:
  \<open>data.get("timestamp") or data.get("time") or data.get("event_time")\<close>.
\<close>

definition raw_timestamp :: "dict \<Rightarrow> json" where
  "raw_timestamp values =
     py_or (py_or (get values ''timestamp'') (get values ''time'')) (get values ''event_time'')"

text \<open>
  The accepted shapes of a time value, in the specification's words: a datetime value,
  an epoch number (a boolean is a number in Python), or a string that parses as
  ISO-8601 once a \<open>Z\<close> is replaced by a UTC offset.
\<close>

definition accepted_shape :: "pylib \<Rightarrow> json \<Rightarrow> bool" where
  "accepted_shape lib v =
     (case v of
        JTime t \<Rightarrow> True
      | JInt n \<Rightarrow> True
      | JBool b \<Rightarrow> True
      | JFloat f \<Rightarrow> True
      | JStr s \<Rightarrow> fromisoformat lib (replace_Z s) \<noteq> None
      | _ \<Rightarrow> False)"

text \<open>A payload whose second event has a time that is no time.\<close>

definition bad_time :: json where
  "bad_time = JDict [(''events'', JList
      [JDict [(''id'', JStr ''ok''), (''timestamp'', JInt 1)],
       JDict [(''id'', JStr ''bad''), (''time'', JStr ''yesterday'')]])]"

text \<open>Four lower-case hexadecimal digits.\<close>

definition hex4 :: "string \<Rightarrow> bool" where
  "hex4 h = (length h = 4 \<and> set h \<subseteq> set ''0123456789abcdef'')"

text \<open>The id \<open>base\<close> with the suffixes \<open>hs\<close> appended, each after a hyphen.\<close>

definition with_suffixes :: "string \<Rightarrow> string list \<Rightarrow> string" where
  "with_suffixes base hs = foldl (\<lambda>s h. s @ ''-'' @ h) base hs"

text \<open>
  The id \<open>i\<close> is \<open>base\<close> made unique against the ids in \<open>used\<close>: it is not in use, it
  is \<open>base\<close> itself when that is not in use, and otherwise it is \<open>base\<close> with suffixes
  of four hexadecimal digits appended one at a time for as long as the result was in
  use.
\<close>

definition made_unique :: "string set \<Rightarrow> string \<Rightarrow> string \<Rightarrow> bool" where
  "made_unique used base i =
     (i \<notin> used \<and> (base \<notin> used \<longrightarrow> i = base) \<and>
      (\<exists>hs. (\<forall>h\<in>set hs. hex4 h) \<and> i = with_suffixes base hs \<and>
            (\<forall>m<length hs. with_suffixes base (take m hs) \<in> used)))"

text \<open>
  The ids of the events \<open>es\<close> are the ids \<open>bases\<close>, in order, each made unique against
  the ids in use before it: those in \<open>used\<close> and those of the events before it.
\<close>

fun ids_assigned :: "string set \<Rightarrow> string list \<Rightarrow> event list \<Rightarrow> bool" where
  "ids_assigned used [] [] = True"
| "ids_assigned used (base # bases) (e # es) =
     (made_unique used base (ev_id e) \<and> ids_assigned (insert (ev_id e) used) bases es)"
| "ids_assigned used [] (e # es) = False"
| "ids_assigned used (base # bases) [] = False"

text \<open>A batch of two events that both supply the id \<open>e1\<close>.\<close>

definition twice_e1 :: json where
  "twice_e1 = JDict [(''events'', JList
      [JDict [(''id'', JStr ''e1''), (''timestamp'', JInt 1)],
       JDict [(''id'', JStr ''e1''), (''timestamp'', JInt 2)]])]"

section \<open>Properties\<close>

subsection \<open>Dict operations as maps\<close>


lemma map_of_setdefault:
  "map_of (setdefault m k v) k' = (if k' = k \<and> map_of m k = None then Some v else map_of m k')"
proof (cases "has_key m k")
  case True
  then have "map_of m k \<noteq> None"
    by (simp add: has_key_def keys_def map_of_eq_None_iff)
  with True show ?thesis by (simp add: setdefault_def)
next
  case False
  then have n: "map_of m k = None"
    by (simp add: has_key_def keys_def map_of_eq_None_iff)
  with False show ?thesis
    by (cases "map_of m k'") (auto simp: setdefault_def map_add_def)
qed

lemma map_of_remove_key:
  "map_of (remove_key d k) k' = (if k' = k then None else map_of d k')"
  unfolding remove_key_def by (induction d) auto

lemma map_of_dict_set:
  "map_of (dict_set d k v) k' = (if k' = k then Some v else map_of d k')"
  by (induction d) auto

lemma relocate_maps:
  "relocate known ks data (JDict m) = Inr (data', md') \<Longrightarrow>
   \<exists>m'. md' = JDict m' \<and>
     (\<forall>k. map_of m' k = (case map_of m k of Some v \<Rightarrow> Some v
                          | None \<Rightarrow> if k \<in> set ks \<and> k \<notin> set known then map_of data k else None)) \<and>
     (\<forall>k. map_of data' k = (if k \<in> set ks \<and> k \<notin> set known then None else map_of data k))"
proof (induction ks arbitrary: data m)
  case Nil
  then show ?case by (auto split: option.splits)
next
  case (Cons key ks)
  show ?case
  proof (cases "key \<in> set known")
    case True
    with Cons.prems have "relocate known ks data (JDict m) = Inr (data', md')" by simp
    from Cons.IH [OF this] obtain m' where m': "md' = JDict m'"
      and a: "\<And>k. map_of m' k = (case map_of m k of Some v \<Rightarrow> Some v
                          | None \<Rightarrow> if k \<in> set ks \<and> k \<notin> set known then map_of data k else None)"
      and b: "\<And>k. map_of data' k = (if k \<in> set ks \<and> k \<notin> set known then None else map_of data k)"
      by blast
    have "map_of m' k = (case map_of m k of Some v \<Rightarrow> Some v
            | None \<Rightarrow> if k \<in> set (key # ks) \<and> k \<notin> set known then map_of data k else None)" for k
      using True by (cases "k = key") (auto simp: a split: option.splits)
    moreover have "map_of data' k =
        (if k \<in> set (key # ks) \<and> k \<notin> set known then None else map_of data k)" for k
      using True by (cases "k = key") (auto simp: b)
    ultimately show ?thesis using m' by blast
  next
    case False
    with Cons.prems obtain v where v: "map_of data key = Some v"
      and r: "relocate known ks (remove_key data key) (JDict (setdefault m key v)) = Inr (data', md')"
      by (auto simp: pop_def split: option.splits sum.splits)
    from Cons.IH [OF r] obtain m' where m': "md' = JDict m'"
      and a: "\<And>k. map_of m' k = (case map_of (setdefault m key v) k of Some v \<Rightarrow> Some v
                          | None \<Rightarrow> if k \<in> set ks \<and> k \<notin> set known then map_of (remove_key data key) k else None)"
      and b: "\<And>k. map_of data' k = (if k \<in> set ks \<and> k \<notin> set known then None else map_of (remove_key data key) k)"
      by blast
    have "map_of m' k = (case map_of m k of Some v \<Rightarrow> Some v
            | None \<Rightarrow> if k \<in> set (key # ks) \<and> k \<notin> set known then map_of data k else None)" for k
      using False v
      by (cases "k = key") (auto simp: a map_of_setdefault map_of_remove_key split: option.splits)
    moreover have "map_of data' k =
        (if k \<in> set (key # ks) \<and> k \<notin> set known then None else map_of data k)" for k
      using False by (cases "k = key") (auto simp: b map_of_remove_key)
    ultimately show ?thesis using m' by blast
  qed
qed

lemma has_key_map_of: "has_key d k \<longleftrightarrow> map_of d k \<noteq> None"
  by (simp add: has_key_def keys_def map_of_eq_None_iff)

lemma get_cong_map_of: "map_of d k = map_of d' k \<Longrightarrow> get d k = get d' k"
  by (simp add: get_def)

lemma relocate_needs_dict:
  "relocate known ks data md = Inr r \<Longrightarrow> k \<in> set ks \<Longrightarrow> k \<notin> set known \<Longrightarrow> \<exists>m. md = JDict m"
proof (induction ks arbitrary: data md)
  case Nil
  then show ?case by simp
next
  case (Cons key ks)
  show ?case
  proof (cases "key \<in> set known")
    case True
    with Cons.prems have "relocate known ks data md = Inr r" "k \<in> set ks" by auto
    then show ?thesis using Cons.IH Cons.prems(3) by blast
  next
    case False
    with Cons.prems(1) show ?thesis by (cases md) auto
  qed
qed

lemma relocate_finish:
  assumes r: "relocate known (keys data) data (py_or (get data ''metadata'') (JDict [])) = Inr (data', md')"
    and k: "has_key data k" "k \<notin> set known" and md: "''metadata'' \<in> set known"
  shows "\<exists>m'. map_of (dict_set data' ''metadata'' md') ''metadata'' = Some (JDict m') \<and>
           map_of (dict_set data' ''metadata'' md') k = None \<and>
           map_of m' k = (case map_of (incoming_bag data) k of Some w \<Rightarrow> Some w | None \<Rightarrow> map_of data k)"
proof -
  from k have kin: "k \<in> set (keys data)" by (simp add: has_key_def)
  from relocate_needs_dict [OF r kin k(2)] obtain m
    where m: "py_or (get data ''metadata'') (JDict []) = JDict m" by blast
  then have bag: "incoming_bag data = m" by (simp add: incoming_bag_def)
  from relocate_maps [OF r [unfolded m]] obtain m' where m': "md' = JDict m'"
    and a: "\<And>k. map_of m' k = (case map_of m k of Some v \<Rightarrow> Some v
              | None \<Rightarrow> if k \<in> set (keys data) \<and> k \<notin> set known then map_of data k else None)"
    and b: "\<And>k. map_of data' k = (if k \<in> set (keys data) \<and> k \<notin> set known then None else map_of data k)"
    by blast
  from k(2) md have ne: "k \<noteq> ''metadata''" by auto
  have "map_of (dict_set data' ''metadata'' md') ''metadata'' = Some (JDict m')"
    by (simp add: map_of_dict_set m')
  moreover have "map_of (dict_set data' ''metadata'' md') k = None"
    using ne kin k(2) by (simp add: map_of_dict_set b)
  moreover have "map_of m' k = (case map_of (incoming_bag data) k of Some w \<Rightarrow> Some w | None \<Rightarrow> map_of data k)"
    using kin k(2) by (simp add: a bag split: option.splits)
  ultimately show ?thesis by blast
qed

lemma map_of_fill_actors: "k \<noteq> ''actors'' \<Longrightarrow> map_of (fill_actors d) k = map_of d k"
  by (simp add: fill_actors_def map_of_dict_set split: json.splits)

lemma map_of_fill_targets:
  "fill_targets d = Inr d' \<Longrightarrow> k \<noteq> ''actors'' \<Longrightarrow> k \<noteq> ''targets'' \<Longrightarrow> map_of d' k = map_of d k"
  by (auto simp: fill_targets_def Let_def map_of_dict_set split: if_splits json.splits sum.splits)

lemma incoming_bag_cong:
  "map_of d ''metadata'' = map_of d' ''metadata'' \<Longrightarrow> incoming_bag d = incoming_bag d'"
  by (simp add: incoming_bag_def get_def)

lemma normalise_fields_relocates:
  assumes "normalise_fields values = Inr d'" "has_key values k" "k \<notin> set entity_known"
  shows "\<exists>m'. map_of d' ''metadata'' = Some (JDict m') \<and> map_of d' k = None \<and>
           map_of m' k = (case map_of (incoming_bag values) k of Some w \<Rightarrow> Some w | None \<Rightarrow> map_of values k)"
proof -
  define data where "data = setdefault (setdefault values ''appearance'' (get_default values ''looks'' (JDict [])))
       ''attributes'' (get_default (setdefault values ''appearance'' (get_default values ''looks'' (JDict []))) ''state'' (JDict []))"
  have same: "map_of data k' = map_of values k'" if "k' \<notin> {''appearance'', ''attributes''}" for k'
    using that by (auto simp: data_def map_of_setdefault)
  from assms(1) obtain data' md' where
    r: "relocate entity_known (keys data) data (py_or (get data ''metadata'') (JDict [])) = Inr (data', md')"
    and d': "d' = dict_set data' ''metadata'' md'"
    by (auto simp: normalise_fields_def Let_def data_def split: sum.splits)
  have hk: "has_key data k" using assms(2,3) same [of k]
    by (simp add: has_key_map_of entity_known_def)
  have bag: "incoming_bag data = incoming_bag values"
    by (rule incoming_bag_cong) (simp add: same)
  have eq: "map_of data k = map_of values k" using assms(3) by (simp add: same entity_known_def)
  have "''metadata'' \<in> set entity_known" by (simp add: entity_known_def)
  from relocate_finish [OF r hk assms(3) this] show ?thesis
    unfolding d' bag eq .
qed

lemma normalise_payload_relocates:
  assumes "normalise_payload values = Inr d'" "has_key values k" "k \<notin> set payload_known"
  shows "\<exists>m'. map_of d' ''metadata'' = Some (JDict m') \<and> map_of d' k = None \<and>
           map_of m' k = (case map_of (incoming_bag values) k of Some w \<Rightarrow> Some w | None \<Rightarrow> map_of values k)"
proof -
  define data where "data = setdefault values ''events''
                   (py_or (py_or (get values ''timeline'') (get values ''entries'')) (JList []))"
  have same: "map_of data k' = map_of values k'" if "k' \<noteq> ''events''" for k'
    using that by (auto simp: data_def map_of_setdefault)
  from assms(1) obtain data' md' where
    r: "relocate payload_known (keys data) data (py_or (get data ''metadata'') (JDict [])) = Inr (data', md')"
    and d': "d' = dict_set data' ''metadata'' md'"
    by (auto simp: normalise_payload_def Let_def data_def split: sum.splits)
  have hk: "has_key data k" using assms(2,3) same [of k]
    by (simp add: has_key_map_of payload_known_def)
  have bag: "incoming_bag data = incoming_bag values"
    by (rule incoming_bag_cong) (simp add: same)
  have eq: "map_of data k = map_of values k" using assms(3) by (simp add: same payload_known_def)
  have "''metadata'' \<in> set payload_known" by (simp add: payload_known_def)
  from relocate_finish [OF r hk assms(3) this] show ?thesis
    unfolding d' bag eq .
qed

lemma normalise_event_relocates:
  assumes "normalise_event values = Inr d'" "has_key values k" "k \<notin> set event_known"
  shows "\<exists>m'. map_of d' ''metadata'' = Some (JDict m') \<and> map_of d' k = None \<and>
           map_of m' k = (case map_of (incoming_bag values) k of Some w \<Rightarrow> Some w | None \<Rightarrow> map_of values k)"
proof -
  define d1 where "d1 = dict_set values ''event_id'' (py_or (get values ''event_id'') (get values ''id''))"
  define d2 where "d2 = dict_set d1 ''timestamp''
                   (py_or (py_or (get d1 ''timestamp'') (get d1 ''time'')) (get d1 ''event_time''))"
  define d3 where "d3 = setdefault d2 ''action'' (get d2 ''verb'')"
  define d4 where "d4 = setdefault d3 ''summary'' (get d3 ''description'')"
  define d5 where "d5 = fill_actors d4"
  from assms(1) obtain data data' md' where ft: "fill_targets d5 = Inr data" and
    r: "relocate event_known (keys data) data (py_or (get data ''metadata'') (JDict [])) = Inr (data', md')"
    and d': "d' = dict_set data' ''metadata'' md'"
    by (auto simp: normalise_event_def Let_def d1_def d2_def d3_def d4_def d5_def split: sum.splits)
  have same: "map_of data k' = map_of values k'"
    if "k' \<notin> {''event_id'', ''timestamp'', ''action'', ''summary'', ''actors'', ''targets''}" for k'
    using that map_of_fill_targets [OF ft, of k']
    by (auto simp: d5_def d4_def d3_def d2_def d1_def map_of_fill_actors map_of_setdefault map_of_dict_set)
  have hk: "has_key data k" using assms(2,3) same [of k]
    by (simp add: has_key_map_of event_known_def)
  have bag: "incoming_bag data = incoming_bag values"
    by (rule incoming_bag_cong) (simp add: same)
  have eq: "map_of data k = map_of values k" using assms(3) by (simp add: same event_known_def)
  have "''metadata'' \<in> set event_known" by (simp add: event_known_def)
  from relocate_finish [OF r hk assms(3) this] show ?thesis
    unfolding d' bag eq .
qed

text \<open>
  C3 (as amended). Each of the three root validators moves every key outside its
  recognised set out of the object and into the object's metadata bag. The value stored
  under that key in the bag is the one the bag already had for it, if any; otherwise it
  is the value of the moved key. A moved key whose name is already taken in the bag is
  therefore lost.
\<close>

theorem unrecognised_keys_relocated:
  assumes "(normalise, known) \<in> {(normalise_fields, entity_known),
             (normalise_event, event_known), (normalise_payload, payload_known)}"
    and "normalise values = Inr d'" and "has_key values k" and "k \<notin> set known"
  shows "\<exists>m'. map_of d' ''metadata'' = Some (JDict m') \<and> map_of d' k = None \<and>
           map_of m' k = (case map_of (incoming_bag values) k of
                            Some w \<Rightarrow> Some w | None \<Rightarrow> map_of values k)"
  using assms normalise_fields_relocates normalise_event_relocates normalise_payload_relocates
  by auto

theorem unrecognised_keys_relocated_witness:
  "normalise_fields [(''zone'', JInt 3)] =
     Inr [(''appearance'', JDict []), (''attributes'', JDict []),
          (''metadata'', JDict [(''zone'', JInt 3)])] \<and>
   has_key [(''zone'', JInt 3)] ''zone'' \<and> ''zone'' \<notin> set entity_known \<and>
   (\<exists>m'. map_of [(''appearance'', JDict []), (''attributes'', JDict []),
                  (''metadata'', JDict [(''zone'', JInt 3)])] ''metadata'' = Some (JDict m') \<and>
         map_of m' ''zone'' = Some (JInt 3))"
proof -
  have n: "normalise_fields [(''zone'', JInt 3)] =
     Inr [(''appearance'', JDict []), (''attributes'', JDict []),
          (''metadata'', JDict [(''zone'', JInt 3)])]"
    by (simp add: normalise_fields_def setdefault_def has_key_def keys_def get_def
        get_default_def py_or_def pop_def remove_key_def entity_known_def)
  have h: "has_key [(''zone'', JInt 3)] ''zone''" by (simp add: has_key_def keys_def)
  have u: "''zone'' \<notin> set entity_known" by (simp add: entity_known_def)
  from unrecognised_keys_relocated [of normalise_fields entity_known, OF _ n h u]
  show ?thesis using n h u by (simp add: incoming_bag_def get_def py_or_def)
qed

text \<open>
  C3 as stated fails: the top-level key \<open>foo\<close> is not recognised, the document is
  normalised and parsed without error, and the value 1 it carried is nowhere in the
  result, because the incoming bag already had a key \<open>foo\<close>.
\<close>

theorem relocation_drops_on_collision:
  "normalise_payload [(''foo'', JInt 1), (''metadata'', JDict [(''foo'', JInt 2)])] =
     Inr [(''metadata'', JDict [(''foo'', JInt 2)]), (''events'', JList [])] \<and>
   parse_payload sample_lib (JDict [(''foo'', JInt 1), (''metadata'', JDict [(''foo'', JInt 2)])]) =
     Inr \<lparr>gp_events = [], gp_metadata = [(''foo'', JInt 2)]\<rparr>"
  by code_simp

subsection \<open>Bucket selection\<close>

lemma length_lower: "length (lower s) = length s"
  by (simp add: lower_def)

lemma entity_type_of_nonempty: "entity_type_of entity \<noteq> []"
proof -
  have "length (entity_type_of entity) > 0"
    by (simp add: entity_type_of_def length_lower split: option.splits)
  then show ?thesis by auto
qed

lemma bucket_selection_examples:
  "select_bucket store (entity_type_of (e\<lparr>ge_type := Some ''person''\<rparr>)) = (person store, ''person'')"
  "select_bucket store (entity_type_of (e\<lparr>ge_type := Some ''Persons''\<rparr>)) = (person store, ''person'')"
  "select_bucket store (entity_type_of (e\<lparr>ge_type := Some ''object''\<rparr>)) = (object store, ''object'')"
  "select_bucket store (entity_type_of (e\<lparr>ge_type := Some ''objects''\<rparr>)) = (object store, ''object'')"
  "select_bucket store (entity_type_of (e\<lparr>ge_type := None\<rparr>)) = (unknown store, ''unknown'')"
  "select_bucket store (entity_type_of (e\<lparr>ge_type := Some ''Car''\<rparr>)) = (unknown store, ''car'')"
  by (simp_all add: select_bucket_def buckets_def entity_type_of_def lower_def lower_char_def
      startswith_def)

text \<open>
  C2 (as amended). The bucket is chosen by testing whether the lower-cased type starts
  with \<open>per\<close>, \<open>obj\<close> or \<open>unk\<close>, in that order, and the canonical type is then the
  bucket's name. A type that starts with none of them, such as \<open>people\<close> or \<open>items\<close>,
  gets the \<open>unknown\<close> bucket and its own lower-cased type string as canonical type.
\<close>

theorem select_bucket_by_prefix:
  "select_bucket store (entity_type_of entity) =
     (if startswith (entity_type_of entity) ''per'' then (person store, ''person'')
      else if startswith (entity_type_of entity) ''obj'' then (object store, ''object'')
      else if startswith (entity_type_of entity) ''unk'' then (unknown store, ''unknown'')
      else (unknown store, entity_type_of entity))"
  by (simp add: select_bucket_def buckets_def entity_type_of_nonempty)

text \<open>
  C2 as stated fails: with a non-empty \<open>person\<close> bucket and empty \<open>object\<close> and
  \<open>unknown\<close> buckets, the types \<open>people\<close> and \<open>items\<close> select the (empty) \<open>unknown\<close>
  bucket and keep their own name as canonical type.
\<close>

theorem people_and_items_miss_their_bucket:
  "select_bucket sample_store
     (entity_type_of \<lparr>ge_entity_id = None, ge_name = None, ge_type = Some ''people'',
        ge_appearance = [], ge_attributes = [], ge_metadata = []\<rparr>) = ([], ''people'') \<and>
   person sample_store \<noteq> [] \<and>
   select_bucket sample_store
     (entity_type_of \<lparr>ge_entity_id = None, ge_name = None, ge_type = Some ''items'',
        ge_appearance = [], ge_attributes = [], ge_metadata = []\<rparr>) = ([], ''items'')"
  by (simp add: select_bucket_def buckets_def entity_type_of_def lower_def lower_char_def
      startswith_def sample_store_def)

subsection \<open>Exact id match\<close>

text \<open>
  C7 (as amended). When the entity carries a non-empty id that is a key of the selected
  bucket, the resolver returns that id and the stored profile, to which the canonical
  type is added under \<open>type\<close> only when the profile has no \<open>type\<close> of its own; every
  other key of the profile is returned as stored, and no random id is drawn.
\<close>

theorem exact_id_match:
  assumes "select_bucket store (entity_type_of entity) = (preferred_bucket, canonical_type)"
    and "ge_entity_id entity = Some i" and "i \<noteq> []"
    and "map_of preferred_bucket i = Some profile"
  shows "\<exists>result. resolve_identity lib store n entity = Inr (i, result, n) \<and>
           map_of result ''type'' =
             (case map_of profile ''type'' of Some t \<Rightarrow> Some t | None \<Rightarrow> Some (JStr canonical_type)) \<and>
           (\<forall>k. k \<noteq> ''type'' \<longrightarrow> map_of result k = map_of profile k)"
  using assms
  by (auto simp: resolve_identity_def id_match_def nonempty_def with_type_def map_of_setdefault
      split: option.splits)

theorem exact_id_match_witness:
  "\<exists>result. resolve_identity sample_lib sample_store 0
       \<lparr>ge_entity_id = Some ''p2'', ge_name = None, ge_type = Some ''person'',
        ge_appearance = [], ge_attributes = [], ge_metadata = []\<rparr> = Inr (''p2'', result, 0) \<and>
     map_of result ''type'' = Some (JStr ''person'') \<and>
     map_of result ''name'' = Some (JStr ''Cy'')"
proof -
  let ?e = "\<lparr>ge_entity_id = Some ''p2'', ge_name = None, ge_type = Some ''person'',
        ge_appearance = [], ge_attributes = [], ge_metadata = []\<rparr>"
  let ?p = "[(''id'', JStr ''p2''), (''name'', JStr ''Cy''),
             (''appearance'', JDict [(''hair'', JStr ''red'')])]"
  have s: "select_bucket sample_store (entity_type_of ?e) = (person sample_store, ''person'')"
    by (simp add: select_bucket_def buckets_def entity_type_of_def lower_def lower_char_def
        startswith_def)
  have i: "ge_entity_id ?e = Some ''p2''" and ne: "''p2'' \<noteq> []" by simp_all
  have m: "map_of (person sample_store) ''p2'' = Some ?p" by (simp add: sample_store_def)
  from exact_id_match [OF s i ne m, of sample_lib 0] show ?thesis by auto
qed

text \<open>
  C7 as stated fails: the entity's type selects the \<open>person\<close> bucket, so the canonical
  type is \<open>person\<close>, but the stored profile \<open>p1\<close> comes back with its own type \<open>robot\<close>.
\<close>

theorem stored_type_is_kept:
  "resolve_identity sample_lib sample_store 0
       \<lparr>ge_entity_id = Some ''p1'', ge_name = None, ge_type = Some ''person'',
        ge_appearance = [], ge_attributes = [], ge_metadata = []\<rparr> =
     Inr (''p1'', [(''id'', JStr ''p1''), (''name'', JStr ''Bob''), (''type'', JStr ''robot''),
                   (''appearance'', JDict [(''hair'', JStr ''red'')])], 0)"
  by (simp add: resolve_identity_def id_match_def nonempty_def with_type_def setdefault_def
      has_key_def keys_def select_bucket_def buckets_def entity_type_of_def lower_def
      lower_char_def startswith_def sample_store_def)

subsection \<open>Loading the state\<close>

lemma load_state_recovers:
  "load_state lib Missing = Inr empty_state"
  "load_state lib Unreadable = Inr empty_state"
  "load_state lib Malformed = Inr empty_state"
  "parse_state lib raw = None \<Longrightarrow> load_state lib (Document raw) = Inr empty_state"
  by (simp_all add: load_state_def)

text \<open>
  C9. A missing file, a file that cannot be read, text that is not JSON and a document
  of the wrong shape all give the empty state (lemma \<open>load_state_recovers\<close>). A file
  whose bytes are not valid UTF-8 does not: reading it raises \<open>UnicodeDecodeError\<close>,
  which the handler \<open>except (OSError, json.JSONDecodeError)\<close> does not catch.
\<close>

theorem load_state_undecodable_raises:
  "load_state lib Undecodable = Inl UnicodeDecodeError"
  by (simp add: load_state_def)

subsection \<open>The similarity step\<close>

lemma scan_best_result:
  "scan_best score xs b m = Inr r \<Longrightarrow>
     (r = m \<and> (\<forall>x\<in>set xs. \<exists>t\<le>b. score (snd x) = Inr t)) \<or>
     (\<exists>pre w post s. xs = pre @ w # post \<and> r = Some w \<and> score (snd w) = Inr s \<and>
        b < s \<and> 0 < s \<and>
        (\<forall>x\<in>set pre. \<exists>t<s. score (snd x) = Inr t) \<and>
        (\<forall>x\<in>set post. \<exists>t\<le>s. score (snd x) = Inr t))"
proof (induction xs arbitrary: b m)
  case Nil
  then show ?case by simp
next
  case (Cons x xs)
  obtain profile_id profile where x: "x = (profile_id, profile)" by (cases x)
  from Cons.prems x obtain s where s: "score profile = Inr s"
    by (cases "score profile") auto
  show ?case
  proof (cases "b < s \<and> 0 < s")
    case True
    with Cons.prems x s have run: "scan_best score xs s (Some x) = Inr r" by simp
    from Cons.IH [OF run] show ?thesis
    proof
      assume a: "r = Some x \<and> (\<forall>y\<in>set xs. \<exists>t\<le>s. score (snd y) = Inr t)"
      have "x # xs = [] @ x # xs \<and> r = Some x \<and> score (snd x) = Inr s \<and> b < s \<and> 0 < s \<and>
        (\<forall>y\<in>set []. \<exists>t<s. score (snd y) = Inr t) \<and>
        (\<forall>y\<in>set xs. \<exists>t\<le>s. score (snd y) = Inr t)"
        using a True s x by simp
      then show ?thesis by (intro disjI2 exI)
    next
      assume "\<exists>pre w post s'. xs = pre @ w # post \<and> r = Some w \<and> score (snd w) = Inr s' \<and>
        s < s' \<and> 0 < s' \<and>
        (\<forall>y\<in>set pre. \<exists>t<s'. score (snd y) = Inr t) \<and>
        (\<forall>y\<in>set post. \<exists>t\<le>s'. score (snd y) = Inr t)"
      then obtain pre w post s' where p: "xs = pre @ w # post" "r = Some w"
        "score (snd w) = Inr s'" "s < s'" "0 < s'"
        "\<forall>y\<in>set pre. \<exists>t<s'. score (snd y) = Inr t"
        "\<forall>y\<in>set post. \<exists>t\<le>s'. score (snd y) = Inr t"
        by blast
      have e: "x # xs = (x # pre) @ w # post" using p(1) by simp
      have "\<forall>y\<in>set (x # pre). \<exists>t<s'. score (snd y) = Inr t"
        using p(4,6) s x by auto
      moreover have "b < s'" using True p(4) by simp
      ultimately have "x # xs = (x # pre) @ w # post \<and> r = Some w \<and> score (snd w) = Inr s' \<and>
        b < s' \<and> 0 < s' \<and>
        (\<forall>y\<in>set (x # pre). \<exists>t<s'. score (snd y) = Inr t) \<and>
        (\<forall>y\<in>set post. \<exists>t\<le>s'. score (snd y) = Inr t)"
        using e p(2,3,5,7) by simp
      then show ?thesis by (intro disjI2 exI)
    qed
  next
    case False
    with Cons.prems x s have run: "scan_best score xs b m = Inr r" by auto
    have sb: "s \<le> b" using False by auto
    from Cons.IH [OF run] show ?thesis
    proof
      assume "r = m \<and> (\<forall>y\<in>set xs. \<exists>t\<le>b. score (snd y) = Inr t)"
      with sb s x have "r = m \<and> (\<forall>y\<in>set (x # xs). \<exists>t\<le>b. score (snd y) = Inr t)" by simp
      then show ?thesis by (rule disjI1)
    next
      assume "\<exists>pre w post s'. xs = pre @ w # post \<and> r = Some w \<and> score (snd w) = Inr s' \<and>
        b < s' \<and> 0 < s' \<and>
        (\<forall>y\<in>set pre. \<exists>t<s'. score (snd y) = Inr t) \<and>
        (\<forall>y\<in>set post. \<exists>t\<le>s'. score (snd y) = Inr t)"
      then obtain pre w post s' where p: "xs = pre @ w # post" "r = Some w"
        "score (snd w) = Inr s'" "b < s'" "0 < s'"
        "\<forall>y\<in>set pre. \<exists>t<s'. score (snd y) = Inr t"
        "\<forall>y\<in>set post. \<exists>t\<le>s'. score (snd y) = Inr t"
        by blast
      have e: "x # xs = (x # pre) @ w # post" using p(1) by simp
      have "\<forall>y\<in>set (x # pre). \<exists>t<s'. score (snd y) = Inr t"
        using p(4,6) s x sb by auto
      then have "x # xs = (x # pre) @ w # post \<and> r = Some w \<and> score (snd w) = Inr s' \<and>
        b < s' \<and> 0 < s' \<and>
        (\<forall>y\<in>set (x # pre). \<exists>t<s'. score (snd y) = Inr t) \<and>
        (\<forall>y\<in>set post. \<exists>t\<le>s'. score (snd y) = Inr t)"
        using e p(2,3,4,5,7) by simp
      then show ?thesis by (intro disjI2 exI)
    qed
  qed
qed

text \<open>
  C5. When neither the id nor the name step answers and the similarity step finds a
  match, the resolver returns that profile, and the profile is the first one with the
  highest score in the list made of the selected bucket, then the \<open>person\<close> bucket,
  then the \<open>object\<close> bucket, each in store order: its score is positive, every profile
  before it in that list scores strictly less, and no profile after it scores more. Two
  profiles of equal score are therefore decided for the earlier one, and a later one
  wins only by a strictly greater positive score.
\<close>

theorem similarity_tie_break:
  assumes "select_bucket store (entity_type_of entity) = (preferred_bucket, canonical_type)"
    and "id_match preferred_bucket entity = None"
    and "name_match lib store preferred_bucket entity = Inr None"
    and "similarity_match lib store preferred_bucket entity = Inr (Some (profile_id, profile))"
  shows "resolve_identity lib store n entity =
           Inr (profile_id, with_type profile canonical_type, n) \<and>
         (\<exists>pre post s.
            preferred_bucket @ person store @ object store = pre @ (profile_id, profile) # post \<and>
            score_profile lib (ge_appearance entity) (ge_attributes entity) profile = Inr s \<and>
            0 < s \<and>
            (\<forall>x\<in>set pre. \<exists>t<s.
               score_profile lib (ge_appearance entity) (ge_attributes entity) (snd x) = Inr t) \<and>
            (\<forall>x\<in>set post. \<exists>t\<le>s.
               score_profile lib (ge_appearance entity) (ge_attributes entity) (snd x) = Inr t))"
proof
  show "resolve_identity lib store n entity =
           Inr (profile_id, with_type profile canonical_type, n)"
    using assms by (simp add: resolve_identity_def)
next
  from assms(4) have "scan_best (score_profile lib (ge_appearance entity) (ge_attributes entity))
       (preferred_bucket @ person store @ object store) 0 None = Inr (Some (profile_id, profile))"
    by (simp add: similarity_match_def scan_order_def)
  from scan_best_result [OF this] obtain pre w post s where
    "preferred_bucket @ person store @ object store = pre @ w # post"
    "Some (profile_id, profile) = Some w"
    "score_profile lib (ge_appearance entity) (ge_attributes entity) (snd w) = Inr s" "0 < s"
    "\<forall>x\<in>set pre. \<exists>t<s.
        score_profile lib (ge_appearance entity) (ge_attributes entity) (snd x) = Inr t"
    "\<forall>x\<in>set post. \<exists>t\<le>s.
        score_profile lib (ge_appearance entity) (ge_attributes entity) (snd x) = Inr t"
    by blast
  then have "preferred_bucket @ person store @ object store = pre @ (profile_id, profile) # post \<and>
            score_profile lib (ge_appearance entity) (ge_attributes entity) profile = Inr s \<and>
            0 < s \<and>
            (\<forall>x\<in>set pre. \<exists>t<s.
               score_profile lib (ge_appearance entity) (ge_attributes entity) (snd x) = Inr t) \<and>
            (\<forall>x\<in>set post. \<exists>t\<le>s.
               score_profile lib (ge_appearance entity) (ge_attributes entity) (snd x) = Inr t)"
    by auto
  then show "\<exists>pre post s.
            preferred_bucket @ person store @ object store = pre @ (profile_id, profile) # post \<and>
            score_profile lib (ge_appearance entity) (ge_attributes entity) profile = Inr s \<and>
            0 < s \<and>
            (\<forall>x\<in>set pre. \<exists>t<s.
               score_profile lib (ge_appearance entity) (ge_attributes entity) (snd x) = Inr t) \<and>
            (\<forall>x\<in>set post. \<exists>t\<le>s.
               score_profile lib (ge_appearance entity) (ge_attributes entity) (snd x) = Inr t)"
    by (intro exI)
qed

text \<open>
  The witness crosses the buckets: the entity's type selects the \<open>unknown\<close> bucket, whose
  profile scores nothing; the profiles of the \<open>person\<close> and the \<open>object\<close> bucket both
  score one, and the one of the \<open>person\<close> bucket, scanned first, is returned.
\<close>

theorem similarity_tie_break_witness:
  "resolve_identity sample_lib three_buckets 0 red_car =
     Inr (''p1'', [(''id'', JStr ''p1''), (''appearance'', JDict [(''hair'', JStr ''red'')]),
                   (''type'', JStr ''car'')], 0) \<and>
   (\<exists>s. unknown three_buckets @ person three_buckets @ object three_buckets =
          unknown three_buckets @
            (''p1'', [(''id'', JStr ''p1''), (''appearance'', JDict [(''hair'', JStr ''red'')])]) #
            object three_buckets \<and>
        0 < s \<and>
        (\<forall>x\<in>set (unknown three_buckets). \<exists>t<s.
           score_profile sample_lib (ge_appearance red_car) (ge_attributes red_car) (snd x) = Inr t) \<and>
        (\<forall>x\<in>set (object three_buckets). \<exists>t\<le>s.
           score_profile sample_lib (ge_appearance red_car) (ge_attributes red_car) (snd x) = Inr t))"
proof -
  let ?p = "[(''id'', JStr ''p1''), (''appearance'', JDict [(''hair'', JStr ''red'')])]"
  have s: "select_bucket three_buckets (entity_type_of red_car) = (unknown three_buckets, ''car'')"
    by (simp add: select_bucket_def buckets_def entity_type_of_def lower_def lower_char_def
        startswith_def red_car_def)
  have i: "id_match (unknown three_buckets) red_car = None"
    by (simp add: id_match_def nonempty_def red_car_def)
  have m: "name_match sample_lib three_buckets (unknown three_buckets) red_car = Inr None"
    by (simp add: name_match_def nonempty_def red_car_def)
  have sc: "score_profile sample_lib [(''hair'', JStr ''red'')] []
              [(''id'', JStr i), (''appearance'', JDict [(''hair'', JStr ''red'')])] = Inr 1"
    "score_profile sample_lib [(''hair'', JStr ''red'')] []
              [(''id'', JStr i), (''appearance'', JDict [(''hair'', JStr ''blue'')])] = Inr 0" for i
    by (simp_all add: score_profile_def py_or_def get_def appearance_points_def sample_lib_def
        lower_def lower_char_def)
  have b: "similarity_match sample_lib three_buckets (unknown three_buckets) red_car =
             Inr (Some (''p1'', ?p))"
    by (simp add: similarity_match_def scan_order_def three_buckets_def red_car_def sc)
  from similarity_tie_break [OF s i m b, of 0]
  have r: "resolve_identity sample_lib three_buckets 0 red_car =
      Inr (''p1'', with_type ?p ''car'', 0)"
    by (rule conjunct1)
  have w: "with_type ?p ''car'' = ?p @ [(''type'', JStr ''car'')]"
    by (simp add: with_type_def setdefault_def has_key_def keys_def)
  have "unknown three_buckets @ person three_buckets @ object three_buckets =
          unknown three_buckets @ (''p1'', ?p) # object three_buckets \<and>
        0 < (1::nat) \<and>
        (\<forall>x\<in>set (unknown three_buckets). \<exists>t<1.
           score_profile sample_lib (ge_appearance red_car) (ge_attributes red_car) (snd x) = Inr t) \<and>
        (\<forall>x\<in>set (object three_buckets). \<exists>t\<le>1.
           score_profile sample_lib (ge_appearance red_car) (ge_attributes red_car) (snd x) = Inr t)"
    by (simp add: three_buckets_def red_car_def sc)
  then show ?thesis using r w by (intro conjI exI [of _ "1::nat"]) simp_all
qed

subsection \<open>Merging into the world state\<close>

lemma map_of_update_other:
  "\<not> has_key e k \<Longrightarrow> map_of (update d e) k = map_of d k"
  unfolding update_def
  by (induction e arbitrary: d) (auto simp: has_key_def keys_def map_of_dict_set)

lemma update_participant_other:
  "ea_entity_id a \<noteq> i \<Longrightarrow> map_of (update_participant ev ws a) i = map_of ws i"
  by (simp add: update_participant_def map_of_dict_set split: option.splits)

lemma update_participant_keeps:
  assumes "(es_field, ea_field) \<in> {(es_appearance, ea_appearance), (es_attributes, ea_attributes)}"
    and "map_of ws i = Some old" and "map_of (es_field old) k = Some v"
    and "ea_entity_id a = i \<longrightarrow> \<not> has_key (ea_field a) k"
  shows "\<exists>new. map_of (update_participant ev ws a) i = Some new \<and> map_of (es_field new) k = Some v"
proof (cases "ea_entity_id a = i")
  case False
  then show ?thesis using assms(2,3) by (simp add: update_participant_other)
next
  case True
  with assms(4) have nk: "\<not> has_key (ea_field a) k" by simp
  from assms(1) show ?thesis
  proof
    assume "(es_field, ea_field) = (es_appearance, ea_appearance)"
    then show ?thesis using True nk assms(2,3)
      by (simp add: update_participant_def map_of_dict_set map_of_update_other)
  next
    assume "(es_field, ea_field) \<in> {(es_attributes, ea_attributes)}"
    then show ?thesis using True nk assms(2,3)
      by (simp add: update_participant_def map_of_dict_set map_of_update_other)
  qed
qed

lemma foldl_update_participant_keeps:
  assumes "(es_field, ea_field) \<in> {(es_appearance, ea_appearance), (es_attributes, ea_attributes)}"
  shows "map_of ws i = Some old \<Longrightarrow> map_of (es_field old) k = Some v \<Longrightarrow>
    \<forall>a\<in>set ps. ea_entity_id a = i \<longrightarrow> \<not> has_key (ea_field a) k \<Longrightarrow>
    \<exists>new. map_of (foldl (update_participant ev) ws ps) i = Some new \<and>
           map_of (es_field new) k = Some v"
proof (induction ps arbitrary: ws old)
  case Nil
  then show ?case by simp
next
  case (Cons a ps)
  from Cons.prems(3) have a: "ea_entity_id a = i \<longrightarrow> \<not> has_key (ea_field a) k" by simp
  from update_participant_keeps [OF assms Cons.prems(1,2) a]
  obtain mid where "map_of (update_participant ev ws a) i = Some mid"
    "map_of (es_field mid) k = Some v" by blast
  from Cons.IH [OF this] Cons.prems(3) show ?case by simp
qed

text \<open>
  C1 (as amended). When an event is merged, a key of the appearance (or of the
  attributes) of a world-state entity that none of the event's participants with that
  entity id carries in its own appearance (or attributes) stays, with its value. A
  participant's appearance is the matched profile's appearance overlaid by the payload's,
  so the key has to be absent from both.
\<close>

theorem merge_keeps_unobserved_keys:
  assumes "(es_field, ea_field) \<in> {(es_appearance, ea_appearance), (es_attributes, ea_attributes)}"
    and "map_of (world_state state) i = Some old"
    and "map_of (es_field old) k = Some v"
    and "\<forall>a\<in>set (participants ev). ea_entity_id a = i \<longrightarrow> \<not> has_key (ea_field a) k"
  shows "\<exists>new. map_of (world_state (update_world_state state ev)) i = Some new \<and>
           map_of (es_field new) k = Some v"
  using foldl_update_participant_keeps [OF assms] by (simp add: update_world_state_def)

theorem merge_keeps_unobserved_keys_witness:
  "\<exists>new. map_of (world_state (update_world_state seen_once coat_event)) ''p1'' = Some new \<and>
         map_of (es_appearance new) ''hair'' = Some (JStr ''green'')"
proof -
  let ?old = "\<lparr>es_entity_id = ''p1'', es_name = Some ''Bob'', es_type = ''robot'',
                   es_appearance = [(''hair'', JStr ''green'')], es_attributes = [],
                   es_last_event_id = Some ''e1'', es_last_updated = Naive 1000000\<rparr>"
  have f: "(es_appearance, ea_appearance) \<in>
      {(es_appearance, ea_appearance), (es_attributes, ea_attributes)}" by simp
  have o: "map_of (world_state seen_once) ''p1'' = Some ?old" by (simp add: seen_once_def)
  have v: "map_of (es_appearance ?old) ''hair'' = Some (JStr ''green'')" by simp
  have p: "\<forall>a\<in>set (participants coat_event).
      ea_entity_id a = ''p1'' \<longrightarrow> \<not> has_key (ea_appearance a) ''hair''"
    by (simp add: participants_def coat_event_def has_key_def keys_def)
  from merge_keeps_unobserved_keys [OF f o v p] show ?thesis .
qed

text \<open>
  C1 as stated fails. The profile \<open>p1\<close> stores red hair. A first payload observes \<open>p1\<close>
  with green hair, and the world state says green. A second payload observes \<open>p1\<close>
  with no appearance at all, and the world state then says red: the key was present
  after the first observation and absent from the second payload, and its value changed.
\<close>

theorem profile_value_replaces_observed_value:
  "fst (ingest sample_lib sample_store sighting1 Missing) = Inr seen_once \<and>
   map_option (\<lambda>s. map_of (es_appearance s) ''hair'') (map_of (world_state seen_once) ''p1'') =
     Some (Some (JStr ''green'')) \<and>
   map_sum id (\<lambda>p. map (\<lambda>r. map ge_appearance (gv_actors r)) (gp_events p))
     (parse_payload sample_lib sighting2) = Inr [[[]]] \<and>
   map_sum id (\<lambda>s. map_option (\<lambda>s. map_of (es_appearance s) ''hair'') (map_of (world_state s) ''p1''))
     (fst (ingest (sample_lib\<lparr>parse_state := (\<lambda>raw. Some seen_once)\<rparr>) sample_store sighting2
            (Document JNull))) = Inr (Some (Some (JStr ''red'')))"
  by code_simp

subsection \<open>The order of the timeline\<close>

lemma same_kind_set: "set ts = set ts' \<Longrightarrow> same_kind ts = same_kind ts'"
  by (simp add: same_kind_def list_all_iff)

lemma sorted_by_result:
  assumes "sorted_by f xs = Inr ys"
  shows "ys = sort_key (\<lambda>x. instant (f x)) xs" and "same_kind (map f xs)"
  using assms by (auto simp: sorted_by_def split: if_splits)

lemma same_kind_sorted_ts_le:
  assumes "same_kind ts" and "sorted (map instant ts)"
  shows "sorted_wrt ts_le ts"
proof -
  from assms(2) have "sorted_wrt (\<lambda>a b. instant a \<le> instant b) ts"
    by (simp add: sorted_map)
  moreover have "ts_le a b" if "a \<in> set ts" "b \<in> set ts" "instant a \<le> instant b" for a b
    using that assms(1) by (auto simp: ts_le_def same_kind_def list_all_iff)
  ultimately show ?thesis by (rule sorted_wrt_mono_rel [rotated])
qed

lemma sorted_by_sorted:
  assumes "sorted_by f xs = Inr ys"
  shows "sorted_wrt ts_le (map f ys)"
proof -
  note r = sorted_by_result [OF assms]
  have "set (map f ys) = set (map f xs)" by (simp add: r(1))
  then have k: "same_kind (map f ys)" using r(2) same_kind_set by blast
  have "sorted (map instant (map f ys))"
    using sorted_sort_key [of "\<lambda>x. instant (f x)" xs] by (simp add: r(1) comp_def)
  with k show ?thesis by (rule same_kind_sorted_ts_le)
qed

lemma merge_payload_sorted:
  assumes "merge_payload lib store payload state = Inr final"
  shows "sorted_wrt ts_le (map ev_timestamp (timeline final))"
proof -
  from assms obtain state' ys where "sorted_by ev_timestamp (timeline state') = Inr ys"
    and "final = state'\<lparr>timeline := ys\<rparr>"
    by (auto simp: merge_payload_def split: sum.splits prod.splits)
  then show ?thesis using sorted_by_sorted by simp
qed

lemma ingest_success:
  assumes "ingest lib store gemini_json file = (Inr final, file')"
  shows "\<exists>payload state. parse_payload lib gemini_json = Inr payload \<and>
           load_state lib file = Inr state \<and>
           merge_payload lib store payload state = Inr final \<and>
           write_fails lib file (dump_state lib final) = None \<and>
           file' = Document (dump_state lib final)"
  using assms
  by (auto simp: ingest_def save_state_def split: sum.splits option.splits prod.splits)

text \<open>
  C6. Whenever \<open>ingest\<close> returns a state, whatever the state file held and whatever the
  payload, the timeline of that state is in ascending order of timestamp (each
  timestamp is at most the later ones, and all of them are comparable). The state
  file then holds the serialisation of that very state, so that, if the library reads
  back what it wrote, the next \<open>load_state\<close> gives the state with the sorted timeline.
\<close>

theorem ingest_timeline_sorted:
  assumes "ingest lib store gemini_json file = (Inr final, file')"
  shows "sorted_wrt ts_le (map ev_timestamp (timeline final)) \<and>
         file' = Document (dump_state lib final) \<and>
         (parse_state lib (dump_state lib final) = Some final \<longrightarrow>
            load_state lib file' = Inr final)"
proof -
  from ingest_success [OF assms] obtain payload state where
    m: "merge_payload lib store payload state = Inr final" and
    f: "file' = Document (dump_state lib final)"
    by blast
  have "sorted_wrt ts_le (map ev_timestamp (timeline final))"
    using m by (rule merge_payload_sorted)
  moreover have "load_state lib file' = Inr final"
    if "parse_state lib (dump_state lib final) = Some final"
    using that by (simp add: f load_state_def)
  ultimately show ?thesis using f by simp
qed

theorem ingest_timeline_sorted_witness:
  "ingest (sample_lib\<lparr>parse_state := (\<lambda>raw. Some in_order)\<rparr>) sample_store latest_first Missing =
     (Inr in_order, Document JNull) \<and>
   map ev_id (timeline in_order) = [''early'', ''late''] \<and>
   sorted_wrt ts_le (map ev_timestamp (timeline in_order)) \<and>
   load_state (sample_lib\<lparr>parse_state := (\<lambda>raw. Some in_order)\<rparr>) (Document JNull) = Inr in_order"
proof -
  let ?lib = "sample_lib\<lparr>parse_state := (\<lambda>raw. Some in_order)\<rparr>"
  have e: "ingest ?lib sample_store latest_first Missing = (Inr in_order, Document JNull)"
    by code_simp
  have p: "parse_state ?lib (dump_state ?lib in_order) = Some in_order" by simp
  have i: "map ev_id (timeline in_order) = [''early'', ''late'']" by (simp add: in_order_def)
  from ingest_timeline_sorted [OF e] p
  have "sorted_wrt ts_le (map ev_timestamp (timeline in_order))"
    and "load_state ?lib (Document JNull) = Inr in_order"
    by simp_all
  with e i show ?thesis by (intro conjI)
qed

lemma parse_empty_payload:
  "parse_payload lib (JDict []) = Inr \<lparr>gp_events = [], gp_metadata = []\<rparr>"
  by (simp add: parse_payload_def parse_obj_arg_def normalise_payload_def setdefault_def
      has_key_def keys_def get_def py_or_def payload_known_def events_field_def dict_field_def)

lemma merge_no_events:
  assumes "gp_events payload = []" and "same_kind (map ev_timestamp (timeline state))"
  shows "merge_payload lib store payload state =
           Inr (state\<lparr>timeline := sort_key (\<lambda>e. instant (ev_timestamp e)) (timeline state)\<rparr>)"
  using assms by (simp add: merge_payload_def sorted_by_def same_kind_def)

text \<open>
  C10 (as amended). The document \<open>{}\<close> parses to a payload with no events. For any
  payload with no events, if the state loads, the timestamps of its timeline are all
  naive or all aware, and the state file can be written, \<open>ingest\<close> succeeds and the
  file then holds what it returns: the world state is the loaded one, and the timeline
  is the loaded one sorted by timestamp, a permutation of it, and the same list when it
  was sorted already.
\<close>

theorem empty_payload_keeps_state:
  assumes "parse_payload lib gemini_json = Inr payload" and "gp_events payload = []"
    and "load_state lib file = Inr state"
    and "same_kind (map ev_timestamp (timeline state))"
    and "\<forall>doc. write_fails lib file doc = None"
  shows "parse_payload lib (JDict []) = Inr \<lparr>gp_events = [], gp_metadata = []\<rparr> \<and>
         (\<exists>final. ingest lib store gemini_json file = (Inr final, Document (dump_state lib final)) \<and>
            world_state final = world_state state \<and>
            timeline final = sort_key (\<lambda>e. instant (ev_timestamp e)) (timeline state) \<and>
            mset (timeline final) = mset (timeline state) \<and>
            sorted_wrt ts_le (map ev_timestamp (timeline final)) \<and>
            (sorted (map (\<lambda>e. instant (ev_timestamp e)) (timeline state)) \<longrightarrow>
               timeline final = timeline state))"
proof
  show "parse_payload lib (JDict []) = Inr \<lparr>gp_events = [], gp_metadata = []\<rparr>"
    by (rule parse_empty_payload)
next
  let ?final = "state\<lparr>timeline := sort_key (\<lambda>e. instant (ev_timestamp e)) (timeline state)\<rparr>"
  have m: "merge_payload lib store payload state = Inr ?final"
    using assms(2,4) by (rule merge_no_events)
  have i: "ingest lib store gemini_json file = (Inr ?final, Document (dump_state lib ?final))"
    using assms(5) by (simp add: ingest_def assms(1,3) m save_state_def)
  have s: "sorted_wrt ts_le (map ev_timestamp (timeline ?final))"
    using m by (rule merge_payload_sorted)
  have k: "sorted (map (\<lambda>e. instant (ev_timestamp e)) (timeline state)) \<longrightarrow>
      timeline ?final = timeline state"
    by (simp add: sort_key_id_if_sorted)
  have "ingest lib store gemini_json file = (Inr ?final, Document (dump_state lib ?final)) \<and>
            world_state ?final = world_state state \<and>
            timeline ?final = sort_key (\<lambda>e. instant (ev_timestamp e)) (timeline state) \<and>
            mset (timeline ?final) = mset (timeline state) \<and>
            sorted_wrt ts_le (map ev_timestamp (timeline ?final)) \<and>
            (sorted (map (\<lambda>e. instant (ev_timestamp e)) (timeline state)) \<longrightarrow>
               timeline ?final = timeline state)"
    using i s k by simp
  then show "\<exists>final. ingest lib store gemini_json file = (Inr final, Document (dump_state lib final)) \<and>
            world_state final = world_state state \<and>
            timeline final = sort_key (\<lambda>e. instant (ev_timestamp e)) (timeline state) \<and>
            mset (timeline final) = mset (timeline state) \<and>
            sorted_wrt ts_le (map ev_timestamp (timeline final)) \<and>
            (sorted (map (\<lambda>e. instant (ev_timestamp e)) (timeline state)) \<longrightarrow>
               timeline final = timeline state)"
    by (rule exI)
qed

theorem empty_payload_keeps_state_witness:
  "\<exists>final. ingest (sample_lib\<lparr>parse_state := (\<lambda>raw. Some seen_once)\<rparr>) sample_store (JDict [])
        (Document JNull) = (Inr final, Document JNull) \<and>
     world_state final = world_state seen_once \<and> timeline final = timeline seen_once"
proof -
  let ?lib = "sample_lib\<lparr>parse_state := (\<lambda>raw. Some seen_once)\<rparr>"
  have p: "parse_payload ?lib (JDict []) = Inr \<lparr>gp_events = [], gp_metadata = []\<rparr>"
    by (rule parse_empty_payload)
  have e: "gp_events \<lparr>gp_events = [], gp_metadata = []\<rparr> = []" by simp
  have l: "load_state ?lib (Document JNull) = Inr seen_once" by (simp add: load_state_def)
  have k: "same_kind (map ev_timestamp (timeline seen_once))"
    by (simp add: same_kind_def seen_once_def)
  have w: "\<forall>doc. write_fails ?lib (Document JNull) doc = None" by (simp add: sample_lib_def)
  have d: "dump_state ?lib final = JNull" for final
    by (simp add: sample_lib_def)
  have s: "sorted (map (\<lambda>e. instant (ev_timestamp e)) (timeline seen_once))"
    by (simp add: seen_once_def)
  from empty_payload_keeps_state [OF p e l k w, of sample_store] s show ?thesis
    unfolding d by blast
qed

text \<open>
  C10 as stated fails, in two ways. When the loaded timeline holds a naive and an aware
  timestamp, the final sort compares them and \<open>ingest\<close> of \<open>{}\<close> raises \<open>TypeError\<close>.
  When the state file can be neither read nor written, \<open>load_state\<close> gives the empty
  state and \<open>save_state\<close> raises \<open>OSError\<close>.
\<close>

theorem empty_payload_fails_on_mixed_timeline:
  "ingest (sample_lib\<lparr>parse_state := (\<lambda>raw. Some mixed_state)\<rparr>) sample_store (JDict [])
     (Document JNull) = (Inl TypeError, Document JNull) \<and>
   ingest (sample_lib\<lparr>write_fails := (\<lambda>file doc. Some (OSError, file))\<rparr>) sample_store (JDict [])
     Unreadable = (Inl OSError, Unreadable)"
  by code_simp

subsection \<open>Payloads that do not parse\<close>

lemma isl_both: "isl (both r1 r2) \<longleftrightarrow> isl r1 \<or> isl r2"
  by (cases r1; cases r2) (auto simp: hard_def)

lemma isl_collect: "isl (collect rs) \<longleftrightarrow> (\<exists>r\<in>set rs. isl r)"
  by (induction rs) (auto simp: isl_both isl_map_sum)

lemma relocate_keeps_known:
  "relocate known ks data md = Inr (data', md') \<Longrightarrow> k \<in> set known \<Longrightarrow>
   map_of data' k = map_of data k"
proof (induction ks arbitrary: data md)
  case Nil
  then show ?case by simp
next
  case (Cons key ks)
  show ?case
  proof (cases "key \<in> set known")
    case True
    with Cons show ?thesis by simp
  next
    case False
    with Cons.prems(1) obtain m v where md: "md = JDict m"
      and r: "relocate known ks (remove_key data key) (JDict (setdefault m key v)) = Inr (data', md')"
      by (cases md) (auto simp: pop_def split: option.splits)
    from Cons.IH [OF r Cons.prems(2)] False Cons.prems(2) show ?thesis
      by (auto simp: map_of_remove_key)
  qed
qed

lemma normalise_event_timestamp:
  assumes "normalise_event values = Inr data"
  shows "get data ''timestamp'' = raw_timestamp values"
proof -
  define d1 where "d1 = dict_set values ''event_id'' (py_or (get values ''event_id'') (get values ''id''))"
  define d2 where "d2 = dict_set d1 ''timestamp''
                   (py_or (py_or (get d1 ''timestamp'') (get d1 ''time'')) (get d1 ''event_time''))"
  define d3 where "d3 = setdefault d2 ''action'' (get d2 ''verb'')"
  define d4 where "d4 = setdefault d3 ''summary'' (get d3 ''description'')"
  define d5 where "d5 = fill_actors d4"
  from assms obtain d6 data' md' where ft: "fill_targets d5 = Inr d6" and
    r: "relocate event_known (keys d6) d6 (py_or (get d6 ''metadata'') (JDict [])) = Inr (data', md')"
    and d: "data = dict_set data' ''metadata'' md'"
    by (auto simp: normalise_event_def Let_def d1_def d2_def d3_def d4_def d5_def split: sum.splits)
  have g1: "get d1 k = get values k" if "k \<noteq> ''event_id''" for k
    using that by (simp add: get_def d1_def map_of_dict_set)
  have "map_of d2 ''timestamp'' = Some (raw_timestamp values)"
    by (simp add: d2_def map_of_dict_set raw_timestamp_def g1)
  then have "map_of d5 ''timestamp'' = Some (raw_timestamp values)"
    by (simp add: d5_def d4_def d3_def map_of_fill_actors map_of_setdefault)
  then have "map_of d6 ''timestamp'' = Some (raw_timestamp values)"
    using map_of_fill_targets [OF ft, of "''timestamp''"] by simp
  moreover have "map_of data' ''timestamp'' = map_of d6 ''timestamp''"
    using r by (rule relocate_keeps_known) (simp add: event_known_def)
  ultimately show ?thesis by (simp add: d get_def map_of_dict_set)
qed

lemma coerce_needs_shape:
  "\<not> accepted_shape lib v \<Longrightarrow> isl (coerce_timestamp lib v)"
  by (cases v) (auto simp: accepted_shape_def coerce_timestamp_def)

lemma isl_case_sum: "isl r \<Longrightarrow> isl (case_sum Inl g r)"
  by (cases r) auto

lemma parse_event_needs_shape:
  assumes "\<not> accepted_shape lib (raw_timestamp values)"
  shows "isl (parse_event lib (JDict values))"
proof (cases "normalise_event values")
  case (Inl e)
  then show ?thesis by (simp add: parse_event_def model_field_def)
next
  case (Inr data)
  from normalise_event_timestamp [OF Inr] assms
  have "isl (map_sum absorb id (coerce_timestamp lib (get data ''timestamp'')))"
    by (simp add: isl_map_sum coerce_needs_shape)
  then have "isl (both (optional_str lib (aliased data ''id'' ''event_id''))
                      (both (map_sum absorb id (coerce_timestamp lib (get data ''timestamp'')))
                      (both (optional_str lib (get data ''action''))
                      (both (optional_str lib (get data ''summary''))
                      (both (if has_key data ''actors''
                             then entities_field lib (get data ''actors'') else Inr [])
                      (both (if has_key data ''targets''
                             then entities_field lib (get data ''targets'') else Inr [])
                            (dict_field lib (get data ''metadata''))))))))"
    by (simp only: isl_both simp_thms)
  then show ?thesis
    unfolding parse_event_def model_field_def json.case Inr sum.case by (rule isl_case_sum)
qed

lemma parse_payload_needs_shape:
  assumes "normalise_payload values = Inr data" and "get data ''events'' = JList items"
    and "JDict ev \<in> set items" and "\<not> accepted_shape lib (raw_timestamp ev)"
  shows "isl (parse_payload lib (JDict values))"
proof -
  have "isl (parse_event lib (JDict ev))" using assms(4) by (rule parse_event_needs_shape)
  with assms(3) have "isl (events_field lib (get data ''events''))"
    by (auto simp: events_field_def assms(2) isl_collect)
  then have "isl (both (events_field lib (get data ''events''))
                       (dict_field lib (get data ''metadata'')))"
    by (simp only: isl_both simp_thms)
  then show ?thesis
    unfolding parse_payload_def parse_obj_arg_def json.case assms(1) sum.case
    by (rule isl_case_sum)
qed

lemma ingest_parse_failure:
  "parse_payload lib gemini_json = Inl e \<Longrightarrow>
   ingest lib store gemini_json file = (Inl (if e = ValidationError then ValueError else e), file)"
  by (simp add: ingest_def)

text \<open>
  An event with a time value in none of the accepted shapes stops the whole call: the
  payload does not parse, \<open>ingest\<close> raises, and the state file is left as it was. A
  validation error of the parse surfaces as \<open>ValueError\<close>; an exception of another
  kind raised while validating surfaces as itself.
\<close>

lemma bad_timestamp_aborts_ingest:
  assumes "normalise_payload values = Inr data" and "get data ''events'' = JList items"
    and "JDict ev \<in> set items" and "\<not> accepted_shape lib (raw_timestamp ev)"
  shows "\<exists>e. parse_payload lib (JDict values) = Inl e \<and>
           ingest lib store (JDict values) file =
             (Inl (if e = ValidationError then ValueError else e), file)"
proof -
  from parse_payload_needs_shape [OF assms] obtain e
    where "parse_payload lib (JDict values) = Inl e"
    by (cases "parse_payload lib (JDict values)") auto
  then show ?thesis using ingest_parse_failure by blast
qed

lemma bad_timestamp_alone_gives_ValueError:
  "ingest sample_lib sample_store bad_time (Document (JStr ''kept'')) =
     (Inl ValueError, Document (JStr ''kept''))"
  by code_simp

text \<open>
  C4. The payload \<open>bad_time_and_bag\<close> has one event, whose time \<open>yesterday\<close> is in none
  of the accepted shapes. The call fails and the state file is untouched, but the
  exception is not the \<open>ValueError\<close> of a malformed payload: the event also has a
  metadata that is not a dict and an unrecognised key, and the root validator raises
  \<open>AttributeError\<close> on \<open>metadata.setdefault\<close>, which neither the validation library nor
  \<open>ingest\<close> catches.
\<close>

theorem bad_timestamp_raises_attribute_error:
  "\<not> accepted_shape sample_lib
       (raw_timestamp [(''time'', JStr ''yesterday''), (''metadata'', JStr ''x''), (''zone'', JInt 1)]) \<and>
   ingest sample_lib sample_store bad_time_and_bag (Document (JStr ''kept'')) =
     (Inl AttributeError, Document (JStr ''kept''))"
  by code_simp

subsection \<open>Event ids\<close>

lemma with_suffixes_Cons:
  "with_suffixes base (h # hs) = with_suffixes (base @ ''-'' @ h) hs"
  by (simp add: with_suffixes_def)

lemma hex_digits_shape:
  "length (hex_digits k u) = k \<and> set (hex_digits k u) \<subseteq> set ''0123456789abcdef''"
proof (induction k arbitrary: u)
  case 0
  then show ?case by simp
next
  case (Suc k)
  have "hex_digit d \<in> set ''0123456789abcdef''" for d
    unfolding hex_digit_def by (rule nth_mem) simp
  with Suc show ?case by simp
qed

lemma uuid_hex_hex4: "hex4 (uuid_hex 4 u)"
proof -
  define ds where "ds = hex_digits 32 u"
  have len: "length ds = 32" and sub: "set ds \<subseteq> set ''0123456789abcdef''"
    using hex_digits_shape [of 32 u] unfolding ds_def by blast+
  have "set (take 4 ds) \<subseteq> set ds" by (rule set_take_subset)
  with sub have "set (take 4 ds) \<subseteq> set ''0123456789abcdef''" by (rule subset_trans [rotated])
  moreover have "length (take 4 ds) = 4" using len by simp
  ultimately show ?thesis unfolding hex4_def uuid_hex_def ds_def by blast
qed

lemma fresh_id_made_unique:
  "fresh_id lib existing_ids event_id n = (i, n') \<Longrightarrow>
   made_unique (set existing_ids) event_id i"
proof (induction lib existing_ids event_id n rule: fresh_id.induct)
  case (1 lib existing_ids event_id n)
  show ?case
  proof (cases "event_id \<in> set existing_ids")
    case False
    with "1.prems" have "i = event_id" by simp
    moreover have "(\<forall>h\<in>set ([]::string list). hex4 h) \<and> event_id = with_suffixes event_id [] \<and>
        (\<forall>m<length ([]::string list). with_suffixes event_id (take m []) \<in> set existing_ids)"
      by (simp add: with_suffixes_def)
    ultimately show ?thesis using False unfolding made_unique_def by blast
  next
    case True
    let ?h = "uuid_hex 4 (uuid4 lib n)"
    let ?next = "event_id @ ''-'' @ ?h"
    from True "1.prems" have "fresh_id lib existing_ids ?next (Suc n) = (i, n')" by simp
    from "1.IH" [OF True this] obtain hs where
      fresh: "i \<notin> set existing_ids" and hex: "\<forall>h\<in>set hs. hex4 h" and
      i: "i = with_suffixes ?next hs" and
      used: "\<forall>m<length hs. with_suffixes ?next (take m hs) \<in> set existing_ids"
      unfolding made_unique_def by blast
    have "with_suffixes event_id (take m (?h # hs)) \<in> set existing_ids"
      if "m < length (?h # hs)" for m
    proof (cases m)
      case 0
      then show ?thesis using True by (simp add: with_suffixes_def)
    next
      case (Suc m')
      with that used show ?thesis by (simp add: with_suffixes_Cons)
    qed
    moreover have "i = with_suffixes event_id (?h # hs)" using i by (simp add: with_suffixes_Cons)
    moreover have "\<forall>h\<in>set (?h # hs). hex4 h" using hex uuid_hex_hex4 by simp
    ultimately have "\<exists>hs. (\<forall>h\<in>set hs. hex4 h) \<and> i = with_suffixes event_id hs \<and>
        (\<forall>m<length hs. with_suffixes event_id (take m hs) \<in> set existing_ids)"
      by blast
    with fresh True show ?thesis unfolding made_unique_def by blast
  qed
qed

lemma timeline_update_world_state [simp]:
  "timeline (update_world_state state ev) = timeline state"
  by (simp add: update_world_state_def)

lemma ingest_event_result:
  assumes "ingest_event lib store md index raw (ex, n, state) = Inr (ex', n', state')"
  shows "\<exists>ev. timeline state' = timeline state @ [ev] \<and> ex' = ev_id ev # ex \<and>
           ev_timestamp ev = gv_timestamp raw \<and>
           made_unique (set ex) (base_id lib index raw) (ev_id ev)"
proof -
  obtain i n1 where f: "fresh_id lib ex (base_id lib index raw) n = (i, n1)"
    by (cases "fresh_id lib ex (base_id lib index raw) n")
  from assms f obtain ev where "timeline state' = timeline state @ [ev]" "ex' = i # ex"
    "ev_timestamp ev = gv_timestamp raw" "ev_id ev = i"
    by (auto simp: ingest_event_def Let_def split: sum.splits prod.splits)
  with fresh_id_made_unique [OF f] show ?thesis by auto
qed

lemma ingest_events_result:
  "ingest_events lib store md index raws (ex, n, state) = Inr (ex', n', state') \<Longrightarrow>
   \<exists>new. timeline state' = timeline state @ new \<and>
         set ex' = set ex \<union> set (map ev_id new) \<and>
         map ev_timestamp new = map gv_timestamp raws \<and>
         ids_assigned (set ex) (map (\<lambda>(j, r). base_id lib j r) (enumerate index raws)) new"
proof (induction raws arbitrary: index ex n state)
  case Nil
  then have "timeline state' = timeline state @ [] \<and> set ex' = set ex \<union> set (map ev_id []) \<and>
         map ev_timestamp [] = map gv_timestamp [] \<and>
         ids_assigned (set ex) (map (\<lambda>(j, r). base_id lib j r) (enumerate index [])) []" by simp
  then show ?case by blast
next
  case (Cons raw raws)
  from Cons.prems obtain ex1 n1 state1 where
    one: "ingest_event lib store md index raw (ex, n, state) = Inr (ex1, n1, state1)" and
    rest: "ingest_events lib store md (Suc index) raws (ex1, n1, state1) = Inr (ex', n', state')"
    by (auto split: sum.splits)
  from ingest_event_result [OF one] obtain ev where ev:
    "timeline state1 = timeline state @ [ev]" "ex1 = ev_id ev # ex"
    "ev_timestamp ev = gv_timestamp raw"
    "made_unique (set ex) (base_id lib index raw) (ev_id ev)"
    by blast
  from Cons.IH [OF rest] obtain new where new:
    "timeline state' = timeline state1 @ new" "set ex' = set ex1 \<union> set (map ev_id new)"
    "map ev_timestamp new = map gv_timestamp raws"
    "ids_assigned (set ex1) (map (\<lambda>(j, r). base_id lib j r) (enumerate (Suc index) raws)) new"
    by blast
  have "timeline state' = timeline state @ (ev # new)" using ev(1) new(1) by simp
  moreover have "set ex' = set ex \<union> set (map ev_id (ev # new))" using ev(2) new(2) by auto
  moreover have "map ev_timestamp (ev # new) = map gv_timestamp (raw # raws)"
    using ev(3) new(3) by simp
  moreover have "ids_assigned (set ex) (map (\<lambda>(j, r). base_id lib j r)
      (enumerate index (raw # raws))) (ev # new)"
    using ev(2,4) new(4) by simp
  ultimately show ?case by blast
qed

lemma ids_assigned_distinct:
  "ids_assigned used bases es \<Longrightarrow>
   length es = length bases \<and> distinct (map ev_id es) \<and> set (map ev_id es) \<inter> used = {}"
proof (induction used bases es rule: ids_assigned.induct)
  case (2 used base bases e es)
  then have u: "ev_id e \<notin> used" and
    ih: "length es = length bases" "distinct (map ev_id es)"
        "set (map ev_id es) \<inter> insert (ev_id e) used = {}"
    by (simp_all add: made_unique_def)
  from ih(3) have "ev_id e \<notin> set (map ev_id es)" "set (map ev_id es) \<inter> used = {}" by auto
  with u ih(1,2) show ?case by auto
qed simp_all

lemma same_id_twice:
  assumes a: "ids_assigned used [''e1'', ''e1''] new"
    and u: "\<forall>i\<in>used. take 2 i \<noteq> ''e1''"
  shows "\<exists>h. hex4 h \<and> map ev_id new = [''e1'', ''e1-'' @ h]"
proof -
  from a obtain e1 e2 where new: "new = [e1, e2]"
    by (cases new; cases "tl new"; cases "tl (tl new)") auto
  have free: "s \<notin> used" if "take 2 s = ''e1''" for s using u that by blast
  have "''e1'' \<notin> used" by (rule free) simp
  moreover from a new have m1: "made_unique used ''e1'' (ev_id e1)" by simp
  ultimately have i1: "ev_id e1 = ''e1''" by (simp add: made_unique_def)
  from a new i1 have "made_unique (insert ''e1'' used) ''e1'' (ev_id e2)" by simp
  then obtain hs where n2: "ev_id e2 \<notin> insert ''e1'' used"
    and hex: "\<forall>h\<in>set hs. hex4 h"
    and k: "ev_id e2 = with_suffixes ''e1'' hs"
    and p: "\<forall>m<length hs. with_suffixes ''e1'' (take m hs) \<in> insert ''e1'' used"
    unfolding made_unique_def by blast
  have "hs \<noteq> []" using n2 k by (auto simp: with_suffixes_def)
  then obtain h hs' where hs: "hs = h # hs'" by (cases hs) auto
  have c: "''e1-'' @ h \<notin> insert ''e1'' used"
    using free [of "''e1-'' @ h"] by simp
  have "hs' = []"
  proof (rule ccontr)
    assume "hs' \<noteq> []"
    then have "1 < length hs" using hs by (cases hs') auto
    with p have "with_suffixes ''e1'' (take 1 hs) \<in> insert ''e1'' used" by blast
    with c show False by (simp add: hs with_suffixes_def)
  qed
  then have "ev_id e2 = ''e1-'' @ h" using k hs by (simp add: with_suffixes_def)
  moreover have "hex4 h" using hex hs by simp
  ultimately show ?thesis using i1 new by auto
qed

lemma base_id_explicit:
  "base_id lib j r =
     (case gv_event_id r of
        None \<Rightarrow> ''event-'' @ isoformat lib (gv_timestamp r) @ ''-'' @ str_of lib (JInt (int j))
      | Some i \<Rightarrow> if i = []
                  then ''event-'' @ isoformat lib (gv_timestamp r) @ ''-'' @ str_of lib (JInt (int j))
                  else i)"
  by (simp add: base_id_def nonempty_def split: option.splits)

lemma merge_payload_result:
  assumes "merge_payload lib store payload state = Inr final"
  shows "\<exists>new. timeline final = sort_key (\<lambda>e. instant (ev_timestamp e)) (timeline state @ new) \<and>
           map ev_timestamp new =
             map gv_timestamp (sort_key (\<lambda>r. instant (gv_timestamp r)) (gp_events payload)) \<and>
           ids_assigned (set (map ev_id (timeline state)))
             (map (\<lambda>(j, r). base_id lib j r)
                (enumerate 0 (sort_key (\<lambda>r. instant (gv_timestamp r)) (gp_events payload)))) new"
proof -
  from assms obtain ordered ex' n' state' sorted_timeline where
    o: "sorted_by gv_timestamp (gp_events payload) = Inr ordered" and
    l: "ingest_events lib store (gp_metadata payload) 0 ordered
          (map ev_id (timeline state), 0, state) = Inr (ex', n', state')" and
    t: "sorted_by ev_timestamp (timeline state') = Inr sorted_timeline" and
    f: "final = state'\<lparr>timeline := sorted_timeline\<rparr>"
    by (auto simp: merge_payload_def split: sum.splits prod.splits)
  note ord = sorted_by_result(1) [OF o]
  from ingest_events_result [OF l] obtain new where
    n: "timeline state' = timeline state @ new"
       "map ev_timestamp new = map gv_timestamp ordered"
       "ids_assigned (set (map ev_id (timeline state)))
          (map (\<lambda>(j, r). base_id lib j r) (enumerate 0 ordered)) new"
    by blast
  from sorted_by_result(1) [OF t] f n(1)
  have "timeline final = sort_key (\<lambda>e. instant (ev_timestamp e)) (timeline state @ new)"
    by simp
  with n(2,3) show ?thesis unfolding ord by blast
qed

text \<open>
  C8. When \<open>ingest\<close> succeeds, the timeline it returns is the loaded timeline and the
  new events, sorted; there is one new event per event of the batch, taken in the
  order of the batch sorted by timestamp and carrying its timestamp. The id of each is
  its raw id when that is present and not empty, else \<open>event-\<close>, the timestamp and the
  position in the sorted batch; if that id is in use (in the loaded timeline or by an
  earlier event of the batch) it gets suffixes of a hyphen and four hexadecimal digits,
  one at a time, until it is not. The new ids are distinct and differ from every id of
  the loaded timeline. Two events that both supply \<open>e1\<close>, on a timeline where no id
  starts with \<open>e1\<close>, get the ids \<open>e1\<close> and \<open>e1-\<close> followed by four hexadecimal digits.
\<close>

theorem appended_ids_unique:
  assumes "ingest lib store gemini_json file = (Inr final, file')"
  shows "\<exists>payload state new.
           parse_payload lib gemini_json = Inr payload \<and> load_state lib file = Inr state \<and>
           timeline final = sort_key (\<lambda>e. instant (ev_timestamp e)) (timeline state @ new) \<and>
           map ev_timestamp new =
             map gv_timestamp (sort_key (\<lambda>r. instant (gv_timestamp r)) (gp_events payload)) \<and>
           ids_assigned (set (map ev_id (timeline state)))
             (map (\<lambda>(j, r).
                     case gv_event_id r of
                       None \<Rightarrow> ''event-'' @ isoformat lib (gv_timestamp r) @ ''-'' @
                                str_of lib (JInt (int j))
                     | Some i \<Rightarrow> if i = []
                                 then ''event-'' @ isoformat lib (gv_timestamp r) @ ''-'' @
                                      str_of lib (JInt (int j))
                                 else i)
                (enumerate 0 (sort_key (\<lambda>r. instant (gv_timestamp r)) (gp_events payload))))
             new \<and>
           length new = length (gp_events payload) \<and>
           distinct (map ev_id new) \<and>
           set (map ev_id new) \<inter> set (map ev_id (timeline state)) = {} \<and>
           ((\<forall>i\<in>set (map ev_id (timeline state)). take 2 i \<noteq> ''e1'') \<and>
            length (gp_events payload) = 2 \<and>
            (\<forall>r\<in>set (gp_events payload). gv_event_id r = Some ''e1'') \<longrightarrow>
            (\<exists>h. length h = 4 \<and> set h \<subseteq> set ''0123456789abcdef'' \<and>
                 map ev_id new = [''e1'', ''e1-'' @ h]))"
proof -
  let ?ordered = "sort_key (\<lambda>r. instant (gv_timestamp r)) (gp_events payload)"
  let ?base = "\<lambda>(j, r).
                     case gv_event_id r of
                       None \<Rightarrow> ''event-'' @ isoformat lib (gv_timestamp r) @ ''-'' @
                                str_of lib (JInt (int j))
                     | Some i \<Rightarrow> if i = []
                                 then ''event-'' @ isoformat lib (gv_timestamp r) @ ''-'' @
                                      str_of lib (JInt (int j))
                                 else i"
  from ingest_success [OF assms] obtain payload state where
    p: "parse_payload lib gemini_json = Inr payload" and l: "load_state lib file = Inr state" and
    m: "merge_payload lib store payload state = Inr final"
    by blast
  let ?ordered = "sort_key (\<lambda>r. instant (gv_timestamp r)) (gp_events payload)"
  from merge_payload_result [OF m] obtain new where
    t: "timeline final = sort_key (\<lambda>e. instant (ev_timestamp e)) (timeline state @ new)" and
    ts: "map ev_timestamp new = map gv_timestamp ?ordered" and
    a0: "ids_assigned (set (map ev_id (timeline state)))
           (map (\<lambda>(j, r). base_id lib j r) (enumerate 0 ?ordered)) new"
    by blast
  have a: "ids_assigned (set (map ev_id (timeline state))) (map ?base (enumerate 0 ?ordered)) new"
    using a0 by (simp only: base_id_explicit)
  note d = ids_assigned_distinct [OF a]
  have len: "length new = length (gp_events payload)" using d by simp
  have twice: "\<exists>h. length h = 4 \<and> set h \<subseteq> set ''0123456789abcdef'' \<and>
                 map ev_id new = [''e1'', ''e1-'' @ h]"
    if u: "\<forall>i\<in>set (map ev_id (timeline state)). take 2 i \<noteq> ''e1''"
      and two: "length (gp_events payload) = 2"
      and ids: "\<forall>r\<in>set (gp_events payload). gv_event_id r = Some ''e1''"
  proof -
    define ord where "ord = ?ordered"
    have "length ord = 2" using two by (simp add: ord_def)
    then obtain r1 r2 where o2: "ord = [r1, r2]"
      by (auto simp: length_Suc_conv numeral_2_eq_2)
    have "set ord = set (gp_events payload)" by (simp add: ord_def)
    with ids have "\<forall>r\<in>set ord. gv_event_id r = Some ''e1''" by simp
    then have g: "gv_event_id r1 = Some ''e1''" "gv_event_id r2 = Some ''e1''"
      by (simp_all add: o2)
    have "map ?base (enumerate 0 ord) = [''e1'', ''e1'']"
      unfolding o2 using g by simp
    then have "map ?base (enumerate 0 ?ordered) = [''e1'', ''e1'']" by (simp only: ord_def)
    with a have "ids_assigned (set (map ev_id (timeline state))) [''e1'', ''e1''] new" by simp
    from same_id_twice [OF this u] show ?thesis by (auto simp: hex4_def)
  qed
  have "parse_payload lib gemini_json = Inr payload \<and> load_state lib file = Inr state \<and>
           timeline final = sort_key (\<lambda>e. instant (ev_timestamp e)) (timeline state @ new) \<and>
           map ev_timestamp new = map gv_timestamp ?ordered \<and>
           ids_assigned (set (map ev_id (timeline state))) (map ?base (enumerate 0 ?ordered)) new \<and>
           length new = length (gp_events payload) \<and>
           distinct (map ev_id new) \<and>
           set (map ev_id new) \<inter> set (map ev_id (timeline state)) = {} \<and>
           ((\<forall>i\<in>set (map ev_id (timeline state)). take 2 i \<noteq> ''e1'') \<and>
            length (gp_events payload) = 2 \<and>
            (\<forall>r\<in>set (gp_events payload). gv_event_id r = Some ''e1'') \<longrightarrow>
            (\<exists>h. length h = 4 \<and> set h \<subseteq> set ''0123456789abcdef'' \<and>
                 map ev_id new = [''e1'', ''e1-'' @ h]))"
  proof (intro conjI impI)
    assume h: "(\<forall>i\<in>set (map ev_id (timeline state)). take 2 i \<noteq> ''e1'') \<and>
            length (gp_events payload) = 2 \<and>
            (\<forall>r\<in>set (gp_events payload). gv_event_id r = Some ''e1'')"
    from h have "\<forall>i\<in>set (map ev_id (timeline state)). take 2 i \<noteq> ''e1''"
      by (rule conjunct1)
    moreover from h have "length (gp_events payload) = 2" by (rule conjunct2 [THEN conjunct1])
    moreover from h have "\<forall>r\<in>set (gp_events payload). gv_event_id r = Some ''e1''"
      by (rule conjunct2 [THEN conjunct2])
    ultimately show "\<exists>h. length h = 4 \<and> set h \<subseteq> set ''0123456789abcdef'' \<and>
                 map ev_id new = [''e1'', ''e1-'' @ h]"
      by (rule twice)
  qed (use p l t ts a len d in simp_all)
  then show ?thesis by (intro exI)
qed

theorem appended_ids_unique_witness:
  "\<exists>final new. ingest sample_lib sample_store twice_e1 Missing = (Inr final, Document JNull) \<and>
     map ev_id (timeline final) = [''e1'', ''e1-0000''] \<and>
     timeline final = sort_key (\<lambda>e. instant (ev_timestamp e)) new \<and>
     distinct (map ev_id new)"
proof -
  have "\<not> isl (fst (ingest sample_lib sample_store twice_e1 Missing)) \<and>
     snd (ingest sample_lib sample_store twice_e1 Missing) = Document JNull \<and>
     map ev_id (timeline (projr (fst (ingest sample_lib sample_store twice_e1 Missing)))) =
       [''e1'', ''e1-0000'']"
    by code_simp
  then obtain final where e: "ingest sample_lib sample_store twice_e1 Missing =
      (Inr final, Document JNull)" and i: "map ev_id (timeline final) = [''e1'', ''e1-0000'']"
    by (cases "ingest sample_lib sample_store twice_e1 Missing";
        cases "fst (ingest sample_lib sample_store twice_e1 Missing)") auto
  from appended_ids_unique [OF e] obtain state new where
    l: "load_state sample_lib Missing = Inr state" and
    t: "timeline final = sort_key (\<lambda>e. instant (ev_timestamp e)) (timeline state @ new)" and
    d: "distinct (map ev_id new)"
    by blast
  from l have "timeline state = []" by (auto simp: load_state_def empty_state_def)
  with t have "timeline final = sort_key (\<lambda>e. instant (ev_timestamp e)) new" by simp
  with e i d show ?thesis by (intro exI [of _ final] exI [of _ new] conjI)
qed

subsection \<open>The keys of a participant\<close>

lemma put_string_keys:
  assumes "fst ` set d \<subseteq> range JStr"
  shows "fst ` set (put lib d (JStr k) v) = insert (JStr k) (fst ` set d)"
  using assms
proof (induction d)
  case Nil
  then show ?case by simp
next
  case (Cons kv d)
  obtain k' v' where kv: "kv = (k', v')" by (cases kv)
  from Cons.prems kv obtain s where s: "k' = JStr s" by auto
  from Cons.prems have "fst ` set d \<subseteq> range JStr" by simp
  note ih = Cons.IH [OF this]
  show ?case
  proof (cases "s = k")
    case True
    then show ?thesis using kv s by (simp add: same_key_def)
  next
    case False
    then show ?thesis using kv s ih by (simp add: same_key_def insert_commute)
  qed
qed

lemma both_Inr: "both r1 r2 = Inr (x, y) \<longleftrightarrow> r1 = Inr x \<and> r2 = Inr y"
  by (cases r1; cases r2) (auto simp: hard_def)

lemma keys_dict_set: "k' \<in> set (keys (dict_set d k v)) \<longleftrightarrow> k' = k \<or> k' \<in> set (keys d)"
  using has_key_map_of [of "dict_set d k v" k'] has_key_map_of [of d k']
  by (simp add: has_key_def map_of_dict_set)

lemma fold_put_string_keys:
  assumes "fst ` set d \<subseteq> range JStr"
  shows "fst ` set (fold (\<lambda>kv acc. put lib acc (JStr (fst kv)) (snd kv)) e d) =
           fst ` set d \<union> JStr ` fst ` set e"
  using assms
proof (induction e arbitrary: d)
  case Nil
  then show ?case by simp
next
  case (Cons x e)
  have k: "fst ` set (put lib d (JStr (fst x)) (snd x)) = insert (JStr (fst x)) (fst ` set d)"
    using Cons.prems by (rule put_string_keys)
  then have "fst ` set (put lib d (JStr (fst x)) (snd x)) \<subseteq> range JStr"
    using Cons.prems by auto
  from Cons.IH [OF this] k show ?case by auto
qed

lemma coerce_keys_string_keys:
  assumes "coerce_keys lib acc ps = Inr d" and "fst ` set ps \<subseteq> range JStr"
  shows "JStr ` set (keys d) = JStr ` set (keys acc) \<union> fst ` set ps"
  using assms
proof (induction ps arbitrary: acc)
  case Nil
  then show ?case by simp
next
  case (Cons kv ps)
  obtain k v where kv: "kv = (k, v)" by (cases kv)
  from Cons.prems(2) kv obtain s where s: "k = JStr s" by auto
  from Cons.prems(1) kv s have r: "coerce_keys lib (dict_set acc s v) ps = Inr d"
    by (simp add: required_str_def optional_str_def)
  from Cons.prems(2) have sub: "fst ` set ps \<subseteq> range JStr" by simp
  have "set (keys (dict_set acc s v)) = insert s (set (keys acc))"
    using keys_dict_set [of _ acc s v] by blast
  with Cons.IH [OF r sub] kv s show ?case by auto
qed

text \<open>
  When the matched profile stores its appearance as a dict (or stores none), the
  appearance of the resolved participant has exactly the keys of the profile's
  appearance and of the payload's: a key is absent from the participant only when it
  is absent from both.
\<close>

lemma participant_appearance_keys:
  assumes "build_event_actor lib store n entity = Inr (a, n')"
  shows "\<exists>profile. resolve_identity lib store n entity = Inr (ea_entity_id a, profile, n') \<and>
           (\<forall>stored. py_or (get profile ''appearance'') (JDict []) = JDict stored \<longrightarrow>
              (\<forall>k. has_key (ea_appearance a) k \<longleftrightarrow>
                     has_key stored k \<or> has_key (ge_appearance entity) k))"
proof -
  from assms obtain i profile a0 appearance where
    r: "resolve_identity lib store n entity = Inr (i, profile, n')" and
    u0: "dict_update lib [] (py_or (get profile ''appearance'') (JDict [])) = Inr a0" and
    u1: "dict_update lib a0 (py_or (JDict (ge_appearance entity)) (JDict [])) = Inr appearance" and
    c: "coerce_keys lib [] appearance = Inr (ea_appearance a)" and
    a: "ea_entity_id a = i"
    by (auto simp: build_event_actor_def both_Inr split: sum.splits prod.splits)
  have "has_key (ea_appearance a) k \<longleftrightarrow> has_key stored k \<or> has_key (ge_appearance entity) k"
    if st: "py_or (get profile ''appearance'') (JDict []) = JDict stored" for stored k
  proof -
    let ?put = "\<lambda>kv acc. put lib acc (JStr (fst kv)) (snd kv)"
    have a0: "a0 = fold ?put stored []" using u0 st by (simp add: dict_update_def)
    have k0: "fst ` set a0 = JStr ` fst ` set stored"
      using fold_put_string_keys [of "[]" lib stored] by (simp add: a0)
    have e: "py_or (JDict (ge_appearance entity)) (JDict []) = JDict (ge_appearance entity)"
      by (simp add: py_or_def)
    have a1: "appearance = fold ?put (ge_appearance entity) a0"
      using u1 by (simp add: e dict_update_def)
    have s0: "fst ` set a0 \<subseteq> range JStr" using k0 by auto
    have k1: "fst ` set appearance = fst ` set a0 \<union> JStr ` fst ` set (ge_appearance entity)"
      using fold_put_string_keys [OF s0, of lib "ge_appearance entity"] by (simp add: a1)
    have s1: "fst ` set appearance \<subseteq> range JStr" using k1 k0 by auto
    from coerce_keys_string_keys [OF c s1]
    have "JStr ` set (keys (ea_appearance a)) =
        JStr ` fst ` set stored \<union> JStr ` fst ` set (ge_appearance entity)"
      by (simp add: k1 k0 keys_def)
    then have "JStr k \<in> JStr ` set (keys (ea_appearance a)) \<longleftrightarrow>
        JStr k \<in> JStr ` fst ` set stored \<union> JStr ` fst ` set (ge_appearance entity)"
      by simp
    then show ?thesis by (auto simp: has_key_def keys_def)
  qed
  with r a show ?thesis by blast
qed

subsection \<open>Values the validation library reads with \<open>dict(v)\<close>\<close>

text \<open>
  An empty list is read as an empty dict wherever a dict or a model is expected, so the
  payload \<open>[]\<close> parses like \<open>{}\<close>, and a list of pairs is read as the dict of its pairs.
\<close>

lemma parse_list_payload:
  "parse_payload lib (JList []) = Inr \<lparr>gp_events = [], gp_metadata = []\<rparr>"
  by (simp add: parse_payload_def parse_obj_arg_def py_dict_def dict_update_def
      normalise_payload_def setdefault_def has_key_def keys_def get_def py_or_def
      payload_known_def events_field_def dict_field_def)

lemma dict_field_examples:
  "dict_field lib (JList []) = Inr []"
  "dict_field lib (JStr []) = Inr []"
  "dict_field lib (JList [JList [JStr ''hair'', JStr ''red'']]) = Inr [(''hair'', JStr ''red'')]"
  "dict_field lib JNull = Inl ValidationError"
  by (simp_all add: dict_field_def py_dict_def dict_update_def pair_of_def hashable_def
      required_str_def optional_str_def)

lemma float_timestamp_is_coerced:
  "coerce_timestamp lib (JFloat f) = fromtimestamp lib (Inr f)"
  by (simp add: coerce_timestamp_def)

end
